theory Spec2Isabelle
  imports Complex_Main "HOL-Library.Log_Nat"
begin

section \<open>Errors raised by the modelled code\<close>

text \<open>
  Every exception the modelled Python can raise is a value of this type; a fallible
  function returns \<open>error + 'a\<close> with \<open>Inl\<close> for the exception.
  \<open>Finish\<close> is \<open>tornado.web.Finish\<close>, which ends the request with the status set so far.
\<close>

datatype error =
    ZeroDivisionError
  | OverflowError
  | MaxDepthError
  | AttributeError
  | ValueError
  | IndexError
  | KeyError
  | TypeError
  | RuntimeError
  | Finish

section \<open>Pagination: \<open>SQLAlchemyProvider.get_list\<close>\<close>

text \<open>
  Python's \<open>xs[start:stop]\<close>: a negative bound counts from the end, and both bounds are
  clamped to the list. A SQLAlchemy query sliced with non-negative bounds is
  OFFSET \<open>start\<close> LIMIT \<open>stop - start\<close>, which is the same list.
\<close>

definition py_slice :: "'a list \<Rightarrow> int \<Rightarrow> int \<Rightarrow> 'a list" where
  "py_slice xs start stop =
     (let n = int (length xs);
          a = (if start < 0 then max 0 (start + n) else min start n);
          b = (if stop < 0 then max 0 (stop + n) else min stop n)
      in take (nat (b - a)) (drop (nat a) xs))"

text \<open>
  Python's \<open>float\<close> is the IEEE 754 binary64 number: a finite one is a rational
  \<open>m * 2^k\<close> with \<open>\<bar>m\<bar> < 2^53\<close> and \<open>k \<ge> -1074\<close>. \<open>exponent x\<close> is the \<open>e\<close> with
  \<open>2^e \<le> x < 2^(e+1)\<close> for a positive \<open>x\<close>, from the bit length of its integer part, or
  of the integer part of its inverse.
\<close>

definition exponent :: "rat \<Rightarrow> int" where
  "exponent x = (if 1 \<le> x then bitlen \<lfloor>x\<rfloor> - 1 else - bitlen (\<lceil>1 / x\<rceil> - 1))"

text \<open>Rounding to the nearest integer, a tie going to the even one.\<close>

definition round_half_even :: "rat \<Rightarrow> int" where
  "round_half_even x =
     (let f = \<lfloor>x\<rfloor>; d = x - of_int f
      in if d < 1 / 2 then f else if 1 / 2 < d then f + 1 else if even f then f else f + 1)"

text \<open>
  The double nearest to a rational, ties to even: the rational is rounded to a multiple of
  \<open>2^(e-52)\<close>, or of \<open>2^-1074\<close> below the normal range. The exponent is not bounded above
  here; whoever converts checks for overflow.
\<close>

definition nearest_double :: "rat \<Rightarrow> rat" where
  "nearest_double x =
     (if x = 0 then 0
      else let q = 2 powi max (exponent \<bar>x\<bar> - 52) (- 1074)
           in of_int (round_half_even (x / q)) * q)"

text \<open>
  \<open>float(n)\<close>, and the conversion of the integer operand of a division by a float: an
  integer that rounds to \<open>2^1024\<close> or beyond raises \<open>OverflowError\<close>.
\<close>

definition float_of_int :: "int \<Rightarrow> error + rat" where
  "float_of_int n =
     (let y = nearest_double (of_int n)
      in if 2 powi 1024 \<le> \<bar>y\<bar> then Inl OverflowError else Inr y)"

text \<open>
  \<open>get_list\<close> (lines 229-259). The query is a list of rows in collection order;
  \<open>hook\<close> is the model's optional \<open>get_list_queryset\<close>; \<open>matches f v\<close> is the condition
  \<open>get_field(model, f) == v\<close> of one filter. In \<open>count / float(per_page)\<close> first
  \<open>per_page\<close> and then \<open>count\<close> is converted, a zero divisor raises, and the quotient is
  rounded to a double (it is no larger than \<open>count\<close>, so it is finite); \<open>math.ceil\<close> of a
  double is exact.
\<close>

definition get_list ::
  "('a list \<Rightarrow> 'a list) option \<Rightarrow> ('f \<Rightarrow> 'v \<Rightarrow> 'a \<Rightarrow> bool) \<Rightarrow> 'a list \<Rightarrow>
     int \<Rightarrow> int \<Rightarrow> ('f \<times> 'v) list \<Rightarrow> error + 'a list" where
  "get_list hook matches rows page per_page filters =
     (let queryset = (case hook of None \<Rightarrow> rows | Some h \<Rightarrow> h rows);
          queryset = fold (\<lambda>(f, v) q. filter (matches f v) q) filters queryset;
          count = int (length queryset)
      in case float_of_int per_page of
           Inl e \<Rightarrow> Inl e
         | Inr divisor \<Rightarrow>
             (case float_of_int count of
                Inl e \<Rightarrow> Inl e
              | Inr dividend \<Rightarrow>
                  if divisor = 0 then Inl ZeroDivisionError
                  else
                    let pages = \<lceil>nearest_double (dividend / divisor)\<rceil>
                    in if pages = 0 then Inr []
                       else
                         let page = (if page > pages then pages else page);
                             page = page - 1;
                             start = per_page * page;
                             stop = start + per_page
                         in Inr (py_slice queryset start stop)))"

text \<open>The filtered query \<open>get_list\<close> counts and slices, and its number of pages.\<close>

definition list_queryset ::
  "('a list \<Rightarrow> 'a list) option \<Rightarrow> ('f \<Rightarrow> 'v \<Rightarrow> 'a \<Rightarrow> bool) \<Rightarrow> 'a list \<Rightarrow>
     ('f \<times> 'v) list \<Rightarrow> 'a list" where
  "list_queryset hook matches rows filters =
     fold (\<lambda>(f, v) q. filter (matches f v) q) filters
       (case hook of None \<Rightarrow> rows | Some h \<Rightarrow> h rows)"

definition page_count :: "'a list \<Rightarrow> int \<Rightarrow> int" where
  "page_count q per_page = \<lceil>real_of_int (int (length q)) / real_of_int per_page\<rceil>"

section \<open>Python values and the request handler\<close>

text \<open>
  The values the handlers pass around: JSON-like data, \<open>datetime\<close>s (\<open>PTime\<close>, in
  seconds) and references to model instances (\<open>PRef\<close>). \<open>truthy\<close> is Python's truth
  test, as used by \<open>if user_data:\<close>.
\<close>

type_synonym ref = nat

datatype pyval =
    PNone
  | PBool bool
  | PInt int
  | PStr string
  | PTime int
  | PRef ref
  | PList "pyval list"
  | PTuple "pyval list"
  | PDict "(string \<times> pyval) list"

fun truthy :: "pyval \<Rightarrow> bool" where
  "truthy PNone = False"
| "truthy (PBool b) = b"
| "truthy (PInt i) = (i \<noteq> 0)"
| "truthy (PStr s) = (s \<noteq> [])"
| "truthy (PTime t) = True"
| "truthy (PRef r) = True"
| "truthy (PList xs) = (xs \<noteq> [])"
| "truthy (PTuple xs) = (xs \<noteq> [])"
| "truthy (PDict kvs) = (kvs \<noteq> [])"

text \<open>\<open>d[key]\<close> for a string key: only a dict can be subscripted so, and the key must be there.\<close>

fun py_getitem :: "pyval \<Rightarrow> string \<Rightarrow> error + pyval" where
  "py_getitem (PDict kvs) k = (case map_of kvs k of None \<Rightarrow> Inl KeyError | Some v \<Rightarrow> Inr v)"
| "py_getitem v k = Inl TypeError"

text \<open>
  What a \<open>tornado.web.RequestHandler\<close> holds during one request: the request's cookies and
  body, the response under construction (status, headers, cookies to set, chunks written,
  whether it is finished), the signals sent so far (\<open>bzz.signals\<close>), the number of times the
  clock has been read, and the storage behind the provider.
\<close>

datatype cookie = SetCookie string | ClearedCookie

datatype chunk = Text string | Json pyval | ErrorPage nat

datatype signal =
    AuthorizedUser pyval pyval
  | UnauthorizedUser pyval
  | PostCreateInstance string pyval
  | PostUpdateInstance string pyval pyval
  | PostDeleteInstance string pyval

record 'db handler =
  request_cookies :: "string \<rightharpoonup> string"
  request_body :: string
  status :: nat
  reason :: string
  headers :: "(string \<times> string) list"
  new_cookie :: "string \<rightharpoonup> cookie"
  written :: "chunk list"
  finished :: bool
  signals :: "signal list"
  clock :: nat
  db :: 'db

text \<open>A handler method: it may raise, and what it did to the handler before stays done.\<close>

type_synonym ('a, 'db) handler_method = "'db handler \<Rightarrow> (error + 'a) \<times> 'db handler"

definition set_status :: "nat \<Rightarrow> string \<Rightarrow> 'db handler \<Rightarrow> 'db handler" where
  "set_status code r h = h\<lparr>status := code, reason := r\<rparr>"

definition set_cookie :: "string \<Rightarrow> string \<Rightarrow> 'db handler \<Rightarrow> 'db handler" where
  "set_cookie name v h = h\<lparr>new_cookie := (new_cookie h)(name \<mapsto> SetCookie v)\<rparr>"

definition clear_cookie :: "string \<Rightarrow> 'db handler \<Rightarrow> 'db handler" where
  "clear_cookie name h = h\<lparr>new_cookie := (new_cookie h)(name \<mapsto> ClearedCookie)\<rparr>"

text \<open>\<open>write\<close> and \<open>finish\<close> refuse to work on a response that is already finished.\<close>

definition write_chunk :: "chunk \<Rightarrow> (unit, 'db) handler_method" where
  "write_chunk c h =
     (if finished h then (Inl RuntimeError, h)
      else (Inr (), h\<lparr>written := written h @ [c]\<rparr>))"


definition send :: "signal \<Rightarrow> 'db handler \<Rightarrow> 'db handler" where
  "send sg h = h\<lparr>signals := signals h @ [sg]\<rparr>"

section \<open>Authentication: \<open>auth.py\<close>\<close>

text \<open>
  \<open>utils.Jwt\<close> is not part of the sources at hand: its two methods are parameters.
  \<open>try_to_decode\<close> takes the cookie's value (\<open>None\<close> when the cookie is absent) and
  returns the pair \<open>(authenticated, payload)\<close>. A payload is a dict of claims.
\<close>

type_synonym payload = "string \<rightharpoonup> pyval"

record Jwt =
  encode :: "payload \<Rightarrow> string"
  try_to_decode :: "string option \<Rightarrow> bool \<times> payload option"

record authentication_options =
  secret_key :: string
  expiration :: int
  cookie_name :: string
  jwt :: Jwt

text \<open>\<open>AuthHive.configure\<close> (lines 47-66); \<open>mk\<close> is the constructor \<open>utils.Jwt\<close>.\<close>

definition configure :: "(string \<Rightarrow> Jwt) \<Rightarrow> string \<Rightarrow> int \<Rightarrow> string \<Rightarrow> authentication_options" where
  "configure mk key ttl name =
     \<lparr>secret_key = key, expiration = ttl, cookie_name = name, jwt = mk key\<rparr>"

text \<open>
  \<open>datetime.utcnow()\<close>: \<open>utcnow n\<close> is what the \<open>n\<close>-th reading of the clock returns, and
  each reading advances the handler's count of readings.
\<close>

definition read_clock :: "(nat \<Rightarrow> int) \<Rightarrow> 'db handler \<Rightarrow> int \<times> 'db handler" where
  "read_clock utcnow h = (utcnow (clock h), h\<lparr>clock := Suc (clock h)\<rparr>)"

text \<open>\<open>AuthHandler._set_unauthorized\<close> (lines 108-111).\<close>

definition set_unauthorized :: "('a, 'db) handler_method" where
  "set_unauthorized h = (Inl Finish, set_status 401 ''Unauthorized'' h)"

text \<open>\<open>AuthHandler._is_authenticated\<close> (lines 113-117).\<close>

definition is_authenticated ::
  "authentication_options \<Rightarrow> 'db handler \<Rightarrow> bool \<times> payload option" where
  "is_authenticated opts h = try_to_decode (jwt opts) (request_cookies h (cookie_name opts))"

text \<open>
  \<open>AuthHandler._renew_authentication\<close> (lines 119-130). The keyword arguments of
  \<open>dict(iat=..., exp=...)\<close> are evaluated left to right, so the clock is read twice.
  A payload of \<open>None\<close> has no \<open>update\<close>.
\<close>

definition renew_authentication ::
  "(nat \<Rightarrow> int) \<Rightarrow> authentication_options \<Rightarrow> payload option \<Rightarrow> (unit, 'db) handler_method" where
  "renew_authentication utcnow opts payload h =
     (case payload of
        None \<Rightarrow> (Inl AttributeError, h)
      | Some p \<Rightarrow>
          let (iat, h) = read_clock utcnow h;
              (now, h) = read_clock utcnow h;
              exp = now + expiration opts;
              p = p(''iat'' \<mapsto> PTime iat, ''exp'' \<mapsto> PTime exp);
              token = encode (jwt opts) p
          in (Inr (), set_cookie (cookie_name opts) token h))"

text \<open>The decorator \<open>authenticated\<close> (lines 25-42).\<close>

definition authenticated ::
  "(nat \<Rightarrow> int) \<Rightarrow> authentication_options \<Rightarrow> ('a, 'db) handler_method \<Rightarrow> ('a, 'db) handler_method" where
  "authenticated utcnow opts method h =
     (let (auth, payload) = is_authenticated opts h
      in case (if auth then renew_authentication utcnow opts payload h
               else set_unauthorized h) of
           (Inl e, h') \<Rightarrow> (Inl e, h')
         | (Inr u, h') \<Rightarrow> method h')"

text \<open>
  \<open>AuthSigninHandler.post\<close> (lines 147-182). \<open>loads\<close> is \<open>utils.loads\<close>, a parameter;
  a provider is its \<open>authenticate\<close>, which returns the user record or \<open>None\<close>.
  Only a string or \<open>None\<close> can be looked up in \<open>self.providers\<close> without more ado:
  a list or a dict is not hashable.
\<close>

type_synonym provider = "pyval \<Rightarrow> error + pyval"

definition dict_get :: "(string \<times> pyval) list \<Rightarrow> string \<Rightarrow> pyval" where
  "dict_get d k = (case map_of d k of None \<Rightarrow> PNone | Some v \<Rightarrow> v)"

fun providers_get :: "(string \<rightharpoonup> provider) \<Rightarrow> pyval \<Rightarrow> error + provider option" where
  "providers_get ps (PStr n) = Inr (ps n)"
| "providers_get ps (PList xs) = Inl TypeError"
| "providers_get ps (PDict kvs) = Inl TypeError"
| "providers_get ps v = Inr None"

definition signin_post ::
  "(nat \<Rightarrow> int) \<Rightarrow> authentication_options \<Rightarrow> (string \<Rightarrow> error + (string \<times> pyval) list) \<Rightarrow>
     (string \<rightharpoonup> provider) \<Rightarrow> (unit, 'db) handler_method" where
  "signin_post utcnow opts loads providers h =
     (case loads (request_body h) of
        Inl e \<Rightarrow> (Inl e, h)
      | Inr post_data \<Rightarrow>
          let access_token = dict_get post_data ''access_token'';
              provider_name = dict_get post_data ''provider''
          in case providers_get providers provider_name of
               Inl e \<Rightarrow> (Inl e, h)
             | Inr None \<Rightarrow> set_unauthorized h
             | Inr (Some provider) \<Rightarrow>
                 (case provider access_token of
                    Inl e \<Rightarrow> (Inl e, h)
                  | Inr user_data \<Rightarrow>
                      if truthy user_data then
                        (case py_getitem user_data ''id'' of
                           Inl e \<Rightarrow> (Inl e, h)
                         | Inr uid \<Rightarrow>
                             let (iat, h) = read_clock utcnow h;
                                 (now, h) = read_clock utcnow h;
                                 payload = [''sub'' \<mapsto> uid, ''data'' \<mapsto> user_data,
                                            ''iss'' \<mapsto> provider_name,
                                            ''token'' \<mapsto> access_token,
                                            ''iat'' \<mapsto> PTime iat,
                                            ''exp'' \<mapsto> PTime (now + expiration opts)];
                                 auth_token = encode (jwt opts) payload;
                                 h = send (AuthorizedUser provider_name user_data) h;
                                 h = set_cookie (cookie_name opts) auth_token h
                             in write_chunk (Json (PDict [(''authenticated'', PBool True)])) h)
                      else set_unauthorized (send (UnauthorizedUser provider_name) h)))"

text \<open>\<open>AuthSignoutHandler.post\<close> (lines 185-190), the body the decorator guards.\<close>

definition signout_post :: "authentication_options \<Rightarrow> (unit, 'db) handler_method" where
  "signout_post opts h =
     write_chunk (Json (PDict [(''loggedOut'', PBool True)]))
       (clear_cookie (cookie_name opts) h)"

section \<open>Model instances and the session\<close>

text \<open>
  Model instances are objects on a heap, referred to by \<open>PRef\<close>, so that two attributes
  can hold the same instance. An object has its class, its attributes, and the value its
  \<open>to_dict\<close> method returns if its class defines one. The session knows, for every mapped
  class, the rows in query order, and the instances marked for deletion since the last flush.
\<close>

record obj =
  cls :: string
  attrs :: "string \<rightharpoonup> pyval"
  to_dict :: "pyval option"

record database =
  heap :: "ref \<Rightarrow> obj"
  table :: "string \<Rightarrow> ref list"
  pending_delete :: "ref list"

text \<open>\<open>getattr(v, name)\<close>: only an instance has the attributes of the model.\<close>

fun py_getattr :: "database \<Rightarrow> pyval \<Rightarrow> string \<Rightarrow> error + pyval" where
  "py_getattr d (PRef r) name =
     (case attrs (heap d r) name of None \<Rightarrow> Inl AttributeError | Some v \<Rightarrow> Inr v)"
| "py_getattr d v name = Inl AttributeError"

text \<open>\<open>v.__class__\<close>, by name: \<open>None\<close> has a class too.\<close>

fun class_of :: "database \<Rightarrow> pyval \<Rightarrow> string" where
  "class_of d (PRef r) = cls (heap d r)"
| "class_of d PNone = ''NoneType''"
| "class_of d (PBool b) = ''bool''"
| "class_of d (PInt i) = ''int''"
| "class_of d (PStr s) = ''str''"
| "class_of d (PTime t) = ''datetime''"
| "class_of d (PList xs) = ''list''"
| "class_of d (PTuple xs) = ''tuple''"
| "class_of d (PDict kvs) = ''dict''"

text \<open>\<open>db.delete\<close>, \<open>db.flush\<close> and \<open>db.commit\<close> of the session.\<close>

definition db_delete :: "ref \<Rightarrow> database \<Rightarrow> database" where
  "db_delete r d = d\<lparr>pending_delete := pending_delete d @ [r]\<rparr>"

definition db_flush :: "database \<Rightarrow> database" where
  "db_flush d =
     d\<lparr>table := (\<lambda>c. filter (\<lambda>r. r \<notin> set (pending_delete d)) (table d c)),
       pending_delete := []\<rparr>"

definition db_commit :: "database \<Rightarrow> database" where
  "db_commit d = db_flush d"

section \<open>The SQLAlchemy provider: \<open>providers/sqlalchemy_provider.py\<close>\<close>

text \<open>
  A mapped class: its name, its table, its columns and relationships
  (\<open>get_model_fields\<close>), the name of the column its \<open>get_id_field_name\<close> returns if it
  defines that method, and its optional \<open>get_instance_queryset\<close> hook.
\<close>

datatype field = Column | Relationship (target_table: string) (uselist: bool)

record model_class =
  class_name :: string
  tablename :: string
  model_fields :: "string \<rightharpoonup> field"
  id_field_name :: "string option"
  get_instance_queryset :: "(database \<Rightarrow> ref list \<Rightarrow> pyval \<Rightarrow> ref list) option"

text \<open>\<open>is_reference_field\<close>, \<open>is_list_field\<close> (lines 84-93); an absent field is \<open>None\<close>.\<close>

fun is_reference_field :: "field option \<Rightarrow> bool" where
  "is_reference_field (Some (Relationship t u)) = True"
| "is_reference_field f = False"

fun is_list_field :: "field option \<Rightarrow> bool" where
  "is_list_field (Some (Relationship t u)) = u"
| "is_list_field f = False"

text \<open>\<open>get_model\<close> (lines 50-59): the first registered class mapped to the field's table.\<close>

fun get_model :: "model_class list \<Rightarrow> field option \<Rightarrow> model_class option" where
  "get_model registry (Some (Relationship t u)) = find (\<lambda>c. tablename c = t) registry"
| "get_model registry f = None"

text \<open>\<open>get_id_field_name\<close> (lines 302-318); the column is known by its name.\<close>

definition get_id_field_name :: "model_class \<Rightarrow> error + string" where
  "get_id_field_name model =
     (let name = (case id_field_name model of Some n \<Rightarrow> n | None \<Rightarrow> ''id'')
      in case model_fields model name of None \<Rightarrow> Inl ValueError | Some id_field \<Rightarrow> Inr name)"

text \<open>
  \<open>get_instance\<close> (lines 213-227): the first row of the model whose id column equals
  \<open>instance_id\<close>, or \<open>None\<close>.
\<close>

definition get_instance :: "model_class \<Rightarrow> pyval \<Rightarrow> database \<Rightarrow> error + pyval" where
  "get_instance model instance_id d =
     (let queryset = table d (class_name model);
          queryset = (case get_instance_queryset model of
                        None \<Rightarrow> queryset
                      | Some hook \<Rightarrow> hook d queryset instance_id)
      in case get_id_field_name model of
           Inl e \<Rightarrow> Inl e
         | Inr field \<Rightarrow>
             (case find (\<lambda>r. attrs (heap d r) field = Some instance_id) queryset of
                None \<Rightarrow> Inr PNone
              | Some r \<Rightarrow> Inr (PRef r)))"

text \<open>\<open>save_instance\<close> (lines 198-203).\<close>

definition save_instance :: "database \<Rightarrow> database" where
  "save_instance d = db_commit (db_flush d)"

text \<open>\<open>delete_instance\<close> (lines 205-211), on the provider's own model.\<close>

definition delete_instance :: "model_class \<Rightarrow> pyval \<Rightarrow> database \<Rightarrow> (error + pyval) \<times> database" where
  "delete_instance model pk d =
     (case get_instance model pk d of
        Inl e \<Rightarrow> (Inl e, d)
      | Inr (PRef r) \<Rightarrow> (Inr (PRef r), save_instance (db_delete r d))
      | Inr instance \<Rightarrow> (Inr instance, d))"

section \<open>The REST handler: \<open>rest_handler.py\<close>\<close>

text \<open>
  \<open>ModelRestHandler\<close> leaves the storage to its subclass; what it calls on \<open>self\<close> and
  does not define is a field of the adapter. \<open>json_dumps\<close> is the JSON encoder.
\<close>

record adapter =
  adapter_model :: string
  adapter_get_instance :: "pyval \<Rightarrow> database \<Rightarrow> error + pyval"
  adapter_get_model :: "pyval \<Rightarrow> string \<Rightarrow> database \<Rightarrow> error + string option"
  adapter_get_list :: "database \<Rightarrow> error + pyval list"
  adapter_delete_instance :: "pyval \<Rightarrow> database \<Rightarrow> (error + pyval) \<times> database"
  json_dumps :: "database \<Rightarrow> pyval \<Rightarrow> error + string"

text \<open>\<open>s.split(c)\<close> and \<open>s.lstrip(c)\<close> for a one-character separator.\<close>

fun split_on :: "char \<Rightarrow> string \<Rightarrow> string list" where
  "split_on c [] = [[]]"
| "split_on c (x # xs) =
     (if x = c then [] # split_on c xs
      else (case split_on c xs of [] \<Rightarrow> [[x]] | p # ps \<Rightarrow> (x # p) # ps))"

definition lstrip :: "char \<Rightarrow> string \<Rightarrow> string" where
  "lstrip c s = dropWhile (\<lambda>x. x = c) s"





text \<open>
  \<open>get_parent_model\<close> (lines 63-90): first the loop over all parts but the last, then
  the last part. A model is a class, known by its name, or \<open>None\<close>.
\<close>

fun get_parent_model_loop :: "adapter \<Rightarrow> database \<Rightarrow> string list \<Rightarrow> pyval \<Rightarrow> error + pyval" where
  "get_parent_model_loop ad d [] obj = Inr obj"
| "get_parent_model_loop ad d (part # parts) obj =
     (case split_on CHR ''/'' part of
        [property, property_id] \<Rightarrow>
          (case (if obj = PNone then adapter_get_instance ad (PStr property_id) d
                 else py_getattr d obj property) of
             Inl e \<Rightarrow> Inl e
           | Inr obj' \<Rightarrow> get_parent_model_loop ad d parts obj')
      | _ \<Rightarrow> Inl ValueError)"

definition get_parent_model ::
  "adapter \<Rightarrow> string list \<Rightarrow> database \<Rightarrow>
     error + (pyval \<times> string \<times> string option \<times> string option)" where
  "get_parent_model ad args d =
     (let args = filter (\<lambda>arg. arg \<noteq> []) args
      in case get_parent_model_loop ad d (butlast args) PNone of
           Inl e \<Rightarrow> Inl e
         | Inr obj \<Rightarrow>
             if args = [] then Inl IndexError
             else
               let field_name = lstrip CHR ''/'' (last args)
               in if CHR ''/'' \<in> set field_name then
                    (case split_on CHR ''/'' field_name of
                       [field_name, id_] \<Rightarrow>
                         if obj = PNone then
                           (case adapter_get_instance ad (PStr id_) d of
                              Inl e \<Rightarrow> Inl e
                            | Inr obj \<Rightarrow>
                                Inr (obj, field_name, Some (class_of d obj), Some id_))
                         else
                           (case py_getattr d obj field_name of
                              Inl e \<Rightarrow> Inl e
                            | Inr obj \<Rightarrow>
                                (case adapter_get_model ad obj field_name d of
                                   Inl e \<Rightarrow> Inl e
                                 | Inr model \<Rightarrow> Inr (obj, field_name, model, Some id_)))
                     | _ \<Rightarrow> Inl ValueError)
                  else
                    (case adapter_get_model ad obj field_name d of
                       Inl e \<Rightarrow> Inl e
                     | Inr model \<Rightarrow> Inr (obj, field_name, model, None)))"




text \<open>\<open>delete\<close> (lines 99-107); the id is the string of the path, or \<open>None\<close>.\<close>

definition rest_delete :: "adapter \<Rightarrow> string list \<Rightarrow> (unit, database) handler_method" where
  "rest_delete ad args h =
     (case get_parent_model ad args (db h) of
        Inl e \<Rightarrow> (Inl e, h)
      | Inr (obj, field_name, model, pk) \<Rightarrow>
          (case adapter_delete_instance ad (case pk of None \<Rightarrow> PNone | Some s \<Rightarrow> PStr s) (db h) of
             (Inl e, d) \<Rightarrow> (Inl e, h\<lparr>db := d\<rparr>)
           | (Inr instance, d) \<Rightarrow>
               if truthy instance then
                 write_chunk (Text ''OK'')
                   (send (PostDeleteInstance (adapter_model ad) instance) (h\<lparr>db := d\<rparr>))
               else write_chunk (Text ''FAIL'') (h\<lparr>db := d\<rparr>)))"

section \<open>Serialization: \<open>SQLAlchemyProvider.dump_instance\<close>\<close>

text \<open>
  \<open>self.tree\<close> is built by code that is not part of the sources at hand: it is a
  parameter, giving for the name of a class the children of its node, in the order of the
  dict, or \<open>None\<close> when \<open>find_by_class\<close> finds no node. A child says whether the
  field refers to a model (\<open>model_type\<close>) and whether it holds many (\<open>is_multiple\<close>).
\<close>

record node =
  model_type :: "string option"
  is_multiple :: bool

type_synonym tree = "string \<Rightarrow> (string \<times> node) list option"

text \<open>\<open>result[k] = v\<close> on a dict kept as the list of its items.\<close>

definition dict_set :: "(string \<times> pyval) list \<Rightarrow> string \<Rightarrow> pyval \<Rightarrow> (string \<times> pyval) list" where
  "dict_set kvs k v =
     (if k \<in> fst ` set kvs then map (\<lambda>kv. if fst kv = k then (k, v) else kv) kvs
      else kvs @ [(k, v)])"

text \<open>\<open>getattr(instance, 'to_dict', None)\<close>, already called: what the method returns.\<close>

fun method_to_dict :: "database \<Rightarrow> pyval \<Rightarrow> pyval option" where
  "method_to_dict d (PRef r) = to_dict (heap d r)"
| "method_to_dict d v = None"

text \<open>
  \<open>dump_instance\<close> (lines 269-292) and its loop over the children. Only
  \<open>MaxDepthError\<close> is caught around the recursive call, and the attribute is read
  inside the \<open>try\<close>, before the call.
\<close>

function dump_instance :: "tree \<Rightarrow> database \<Rightarrow> pyval \<Rightarrow> nat \<Rightarrow> error + pyval"
  and dump_nodes ::
    "tree \<Rightarrow> database \<Rightarrow> pyval \<Rightarrow> nat \<Rightarrow> (string \<times> node) list \<Rightarrow> (string \<times> pyval) list \<Rightarrow>
       error + (string \<times> pyval) list"
  where
  "dump_instance tree d instance depth =
     (if depth > 1 then Inl MaxDepthError
      else if instance = PNone then Inr (PDict [])
      else
        (case method_to_dict d instance of
           Some dumped \<Rightarrow> Inr dumped
         | None \<Rightarrow>
             (case tree (class_of d instance) of
                None \<Rightarrow> Inl AttributeError
              | Some children \<Rightarrow>
                  (case dump_nodes tree d instance depth children [] of
                     Inl e \<Rightarrow> Inl e
                   | Inr result \<Rightarrow> Inr (PDict result)))))"
| "dump_nodes tree d instance depth [] result = Inr result"
| "dump_nodes tree d instance depth ((node_name, node) # nodes) result =
     (if model_type node \<noteq> None then
        (if \<not> is_multiple node then
           (case py_getattr d instance node_name of
              Inl e \<Rightarrow> Inl e
            | Inr v \<Rightarrow>
                (case dump_instance tree d v (depth + 1) of
                   Inl e \<Rightarrow>
                     if e = MaxDepthError then dump_nodes tree d instance depth nodes result
                     else Inl e
                 | Inr dumped \<Rightarrow>
                     dump_nodes tree d instance depth nodes (dict_set result node_name dumped)))
         else dump_nodes tree d instance depth nodes result)
      else
        (case py_getattr d instance node_name of
           Inl e \<Rightarrow> Inl e
         | Inr v \<Rightarrow> dump_nodes tree d instance depth nodes (dict_set result node_name v)))"
  by pat_completeness auto
termination
  by (relation "measures
        [\<lambda>x. case x of
               Inl (tree, d, instance, depth) \<Rightarrow> (if depth > 1 then 0 else 2 * (2 - depth))
             | Inr (tree, d, instance, depth, nodes, result) \<Rightarrow>
                 (if depth > 1 then 1 else 2 * (2 - depth) - 1),
         \<lambda>x. case x of
               Inl (tree, d, instance, depth) \<Rightarrow> 0
             | Inr (tree, d, instance, depth, nodes, result) \<Rightarrow> length nodes]")
    auto

declare dump_instance.simps [simp del]

text \<open>What one child contributes to the dumped dict, if anything.\<close>

definition dumped_field ::
  "tree \<Rightarrow> database \<Rightarrow> pyval \<Rightarrow> nat \<Rightarrow> string \<Rightarrow> node \<Rightarrow> pyval option" where
  "dumped_field tree d instance depth n node =
     (if model_type node = None then
        (case py_getattr d instance n of Inr v \<Rightarrow> Some v | Inl e \<Rightarrow> None)
      else if is_multiple node then None
      else
        (case py_getattr d instance n of
           Inr v \<Rightarrow> (case dump_instance tree d v (depth + 1) of
                       Inr sub \<Rightarrow> Some sub
                     | Inl e \<Rightarrow> None)
         | Inl e \<Rightarrow> None))"

text \<open>
  Instances the tree describes: \<open>readable\<close> says that every field the loop reads is an
  attribute of the instance; \<open>described\<close> that the instance has no \<open>to_dict\<close> and the
  tree knows its class, with distinct field names, all readable; \<open>references_described\<close>
  that every single-valued reference of the instance is \<open>None\<close> or a described instance.
\<close>

definition readable :: "database \<Rightarrow> ref \<Rightarrow> (string \<times> node) list \<Rightarrow> bool" where
  "readable d r nodes =
     list_all (\<lambda>(n, node). \<not> (model_type node \<noteq> None \<and> is_multiple node)
                              \<longrightarrow> attrs (heap d r) n \<noteq> None) nodes"

definition described :: "tree \<Rightarrow> database \<Rightarrow> ref \<Rightarrow> bool" where
  "described tree d r =
     (to_dict (heap d r) = None \<and>
      (case tree (cls (heap d r)) of
         None \<Rightarrow> False
       | Some nodes \<Rightarrow> distinct (map fst nodes) \<and> readable d r nodes))"

definition references_described :: "tree \<Rightarrow> database \<Rightarrow> ref \<Rightarrow> (string \<times> node) list \<Rightarrow> bool" where
  "references_described tree d r nodes =
     list_all (\<lambda>(n, node). model_type node \<noteq> None \<and> \<not> is_multiple node \<longrightarrow>
                 (case attrs (heap d r) n of
                    Some PNone \<Rightarrow> True
                  | Some (PRef c) \<Rightarrow> described tree d c
                  | _ \<Rightarrow> False)) nodes"

section \<open>Creating and updating instances: \<open>save_new_instance\<close>, \<open>fill_property\<close>, \<open>update_instance\<close>\<close>

text \<open>
  What the provider reads from \<open>self\<close> and from SQLAlchemy's class registry: its own model and
  the mapped classes.
\<close>

record sqlalchemy_provider =
  provider_model :: model_class
  registry :: "model_class list"

text \<open>
  \<open>setattr(v, name, x)\<close>: only a model instance takes a new attribute value; \<open>None\<close>, strings,
  numbers and lists raise \<open>AttributeError\<close>.
\<close>

fun py_setattr :: "database \<Rightarrow> pyval \<Rightarrow> string \<Rightarrow> pyval \<Rightarrow> error + database" where
  "py_setattr d (PRef r) name x =
     Inr (d\<lparr>heap := (heap d)(r := (heap d r)\<lparr>attrs := (attrs (heap d r))(name \<mapsto> x)\<rparr>)\<rparr>)"
| "py_setattr d v name x = Inl AttributeError"

text \<open>\<open>s.endswith(suffix)\<close>, \<open>s.replace('[]', '')\<close> and \<open>'[]' in s\<close>.\<close>

definition ends_with :: "string \<Rightarrow> string \<Rightarrow> bool" where
  "ends_with suffix s =
     (length suffix \<le> length s \<and> drop (length s - length suffix) s = suffix)"

fun remove_brackets :: "string \<Rightarrow> string" where
  "remove_brackets (x # y # xs) =
     (if x = CHR ''['' \<and> y = CHR '']'' then remove_brackets xs
      else x # remove_brackets (y # xs))"
| "remove_brackets xs = xs"

fun contains_brackets :: "string \<Rightarrow> bool" where
  "contains_brackets (x # y # xs) =
     ((x = CHR ''['' \<and> y = CHR '']'') \<or> contains_brackets (y # xs))"
| "contains_brackets xs = False"

text \<open>
  \<open>getattr(model, field_name, None)\<close> on the mapped class, followed by
  \<open>field.parent.relationships[field.key]\<close>: a name the class does not have gives \<open>None\<close>, a
  relationship gives its property, and a column is no key of \<open>relationships\<close>. A value that is
  no model instance has no mapped class: its class has none of the names.
\<close>

definition class_field :: "model_class option \<Rightarrow> string \<Rightarrow> error + field option" where
  "class_field model name =
     (case model of
        None \<Rightarrow> Inr None
      | Some m \<Rightarrow>
          (case model_fields m name of
             None \<Rightarrow> Inr None
           | Some Column \<Rightarrow> Inl KeyError
           | Some (Relationship t u) \<Rightarrow> Inr (Some (Relationship t u))))"

text \<open>\<open>if not isinstance(value, (tuple, list)): value = [value]\<close>\<close>

fun as_list :: "pyval \<Rightarrow> pyval list" where
  "as_list (PList xs) = xs"
| "as_list (PTuple xs) = xs"
| "as_list v = [v]"

text \<open>
  The loop of \<open>fill_property\<close> over the items of a list-valued key: each item is fetched by id
  and appended to the list held by the attribute.
\<close>

fun append_children ::
  "model_class \<Rightarrow> pyval \<Rightarrow> string \<Rightarrow> pyval list \<Rightarrow> database \<Rightarrow> (error + unit) \<times> database" where
  "append_children child_model instance field_name [] d = (Inr (), d)"
| "append_children child_model instance field_name (item # items) d =
     (case get_instance child_model item d of
        Inl e \<Rightarrow> (Inl e, d)
      | Inr child_instance \<Rightarrow>
          (case py_getattr d instance field_name of
             Inr (PList xs) \<Rightarrow>
               (case py_setattr d instance field_name (PList (xs @ [child_instance])) of
                  Inl e \<Rightarrow> (Inl e, d)
                | Inr d' \<Rightarrow> append_children child_model instance field_name items d')
           | Inr list_property \<Rightarrow> (Inl AttributeError, d)
           | Inl e \<Rightarrow> (Inl e, d)))"

text \<open>
  \<open>fill_property\<close>, on the key already split at its dots. The conversion \<open>str\<close> of Python is a
  parameter. \<open>updated_fields\<close> is \<open>None\<close> when the caller passes none, as creation and the call
  of \<open>fill_property\<close> on itself do; the dictionary, as it is after the call, is returned.
\<close>

fun fill_property ::
  "(pyval \<Rightarrow> string) \<Rightarrow> sqlalchemy_provider \<Rightarrow> model_class option \<Rightarrow> pyval \<Rightarrow> string list \<Rightarrow>
     pyval \<Rightarrow> (string \<times> pyval) list option \<Rightarrow> database \<Rightarrow>
     (error + (string \<times> pyval) list option) \<times> database" where
  "fill_property py_str self model instance [] value updated_fields d = (Inl IndexError, d)"
| "fill_property py_str self model instance (part # rest) value updated_fields d =
     (let multiple = ends_with ''[]'' part;
          field_name = (if multiple then remove_brackets part else part)
      in if length rest \<le> 1 then
           (let property_name = concat rest
            in case (case updated_fields of
                       None \<Rightarrow> Inr None
                     | Some u \<Rightarrow>
                         (case py_getattr d instance field_name of
                            Inl e \<Rightarrow> Inl e
                          | Inr old \<Rightarrow>
                              Inr (Some (dict_set u field_name
                                     (PDict [(''from'', old), (''to'', PStr (py_str value))]))))) of
                 Inl e \<Rightarrow> (Inl e, d)
               | Inr updated_fields \<Rightarrow>
                   (case class_field model field_name of
                      Inl e \<Rightarrow> (Inl e, d)
                    | Inr field \<Rightarrow>
                        (let child_model = get_model (registry self) field
                         in if multiple \<and> is_list_field field then
                              (case py_getattr d instance field_name of
                                 Inl e \<Rightarrow> (Inl e, d)
                               | Inr list_property \<Rightarrow>
                                   (case append_children
                                           (case child_model of
                                              None \<Rightarrow> provider_model self
                                            | Some m \<Rightarrow> m)
                                           instance field_name (as_list value) d of
                                      (Inl e, d') \<Rightarrow> (Inl e, d')
                                    | (Inr u, d') \<Rightarrow> (Inr updated_fields, d')))
                            else
                              (case py_getattr d instance field_name of
                                 Inl e \<Rightarrow> (Inl e, d)
                               | Inr target \<Rightarrow>
                                   (case py_setattr d target property_name value of
                                      Inl e \<Rightarrow> (Inl e, d)
                                    | Inr d' \<Rightarrow> (Inr updated_fields, d'))))))
         else
           (case py_getattr d instance field_name of
              Inl e \<Rightarrow> (Inl e, d)
            | Inr new_instance \<Rightarrow>
                (case fill_property py_str self
                        (find (\<lambda>c. class_name c = class_of d new_instance) (registry self))
                        new_instance rest value None d of
                   (Inl e, d') \<Rightarrow> (Inl e, d')
                 | (Inr u, d') \<Rightarrow> (Inr updated_fields, d'))))"

text \<open>
  The loop of \<open>save_new_instance\<close> and the method itself. The object \<open>model()\<close> constructs is
  the reference \<open>new\<close>, already in the heap; \<open>db.add\<close> enters it in the table of its class.
\<close>

definition db_add :: "ref \<Rightarrow> database \<Rightarrow> database" where
  "db_add r d = d\<lparr>table := (table d)(cls (heap d r) := table d (cls (heap d r)) @ [r])\<rparr>"

fun create_fields ::
  "(pyval \<Rightarrow> string) \<Rightarrow> sqlalchemy_provider \<Rightarrow> model_class \<Rightarrow> pyval \<Rightarrow> (string \<times> pyval) list \<Rightarrow>
     database \<Rightarrow> (error + unit) \<times> database" where
  "create_fields py_str self model instance [] d = (Inr (), d)"
| "create_fields py_str self model instance ((key, value) # items) d =
     (if CHR ''.'' \<in> set key \<or> contains_brackets key then
        (case fill_property py_str self (Some model) instance (split_on CHR ''.'' key)
                value None d of
           (Inl e, d') \<Rightarrow> (Inl e, d')
         | (Inr u, d') \<Rightarrow> create_fields py_str self model instance items d')
      else
        (let field = model_fields model key
         in case (if is_reference_field field then
                    get_instance (case get_model (registry self) field of
                                    None \<Rightarrow> provider_model self
                                  | Some m \<Rightarrow> m) value d
                  else Inr value) of
              Inl e \<Rightarrow> (Inl e, d)
            | Inr value \<Rightarrow>
                (case py_setattr d instance key value of
                   Inl e \<Rightarrow> (Inl e, d)
                 | Inr d' \<Rightarrow> create_fields py_str self model instance items d')))"

definition save_new_instance ::
  "(pyval \<Rightarrow> string) \<Rightarrow> sqlalchemy_provider \<Rightarrow> ref \<Rightarrow> model_class \<Rightarrow> (string \<times> pyval) list \<Rightarrow>
     database \<Rightarrow> (error + pyval) \<times> database" where
  "save_new_instance py_str self new model data d =
     (case create_fields py_str self model (PRef new) data d of
        (Inl e, d') \<Rightarrow> (Inl e, d')
      | (Inr u, d') \<Rightarrow>
          (Inr (PTuple [PRef new, PNone]), db_commit (db_flush (db_add new d'))))"

text \<open>
  The loop of \<open>update_instance\<close> and the method itself. The method does not read its
  argument \<open>data\<close>: it iterates over \<open>self.get_request_data()\<close>, here \<open>request_data\<close>. The
  argument \<open>parent\<close> is not read either and is left out. The result is the tuple the method
  returns.
\<close>

fun update_fields ::
  "(pyval \<Rightarrow> string) \<Rightarrow> sqlalchemy_provider \<Rightarrow> model_class \<Rightarrow> pyval \<Rightarrow> (string \<times> pyval) list \<Rightarrow>
     (string \<times> pyval) list \<Rightarrow> database \<Rightarrow> (error + (string \<times> pyval) list) \<times> database" where
  "update_fields py_str self model instance [] updated_fields d = (Inr updated_fields, d)"
| "update_fields py_str self model instance ((field_name, value) # items) updated_fields d =
     (if CHR ''.'' \<in> set field_name then
        (case fill_property py_str self (Some model) instance (split_on CHR ''.'' field_name)
                value (Some updated_fields) d of
           (Inl e, d') \<Rightarrow> (Inl e, d')
         | (Inr u, d') \<Rightarrow>
             update_fields py_str self model instance items
               (case u of None \<Rightarrow> updated_fields | Some updated_fields \<Rightarrow> updated_fields) d')
      else
        (let field = model_fields model field_name
         in case (if is_reference_field field then
                    get_instance (case get_model (registry self) field of
                                    None \<Rightarrow> provider_model self
                                  | Some m \<Rightarrow> m) value d
                  else Inr value) of
              Inl e \<Rightarrow> (Inl e, d)
            | Inr value \<Rightarrow>
                (case py_getattr d instance field_name of
                   Inl e \<Rightarrow> (Inl e, d)
                 | Inr old \<Rightarrow>
                     (let updated_fields =
                            dict_set updated_fields field_name
                              (PDict [(''from'', old), (''to'', value)])
                      in case py_setattr d instance field_name value of
                           Inl e \<Rightarrow> (Inl e, d)
                         | Inr d' \<Rightarrow>
                             update_fields py_str self model instance items updated_fields d'))))"

definition update_instance ::
  "(pyval \<Rightarrow> string) \<Rightarrow> sqlalchemy_provider \<Rightarrow> pyval \<Rightarrow> (string \<times> pyval) list \<Rightarrow>
     (string \<times> pyval) list \<Rightarrow> model_class option \<Rightarrow> pyval \<Rightarrow> database \<Rightarrow>
     (error + pyval) \<times> database" where
  "update_instance py_str self pk data request_data model instance d =
     (let model = (case model of None \<Rightarrow> provider_model self | Some m \<Rightarrow> m)
      in case (if instance = PNone then get_instance model pk d else Inr instance) of
           Inl e \<Rightarrow> (Inl e, d)
         | Inr instance \<Rightarrow>
             (case update_fields py_str self model instance request_data [] d of
                (Inl e, d') \<Rightarrow> (Inl e, d')
              | (Inr updated_fields, d') \<Rightarrow>
                  (Inr (PTuple [PNone, instance, PDict updated_fields]), save_instance d')))"

text \<open>
  \<open>ModelRestHandler.put\<close>. The provider method and \<open>get_request_data\<close> are parameters;
  \<open>instance, updated = ...\<close> unpacks the result, which raises \<open>ValueError\<close> on a sequence of
  another length and \<open>TypeError\<close> on a value that is no sequence.
\<close>

fun unpack_pair :: "pyval \<Rightarrow> error + pyval \<times> pyval" where
  "unpack_pair (PTuple xs) = (case xs of [a, b] \<Rightarrow> Inr (a, b) | _ \<Rightarrow> Inl ValueError)"
| "unpack_pair (PList xs) = (case xs of [a, b] \<Rightarrow> Inr (a, b) | _ \<Rightarrow> Inl ValueError)"
| "unpack_pair (PStr s) = (case s of [a, b] \<Rightarrow> Inr (PStr [a], PStr [b]) | _ \<Rightarrow> Inl ValueError)"
| "unpack_pair (PDict kvs) =
     (case kvs of [a, b] \<Rightarrow> Inr (PStr (fst a), PStr (fst b)) | _ \<Rightarrow> Inl ValueError)"
| "unpack_pair v = Inl TypeError"

definition rest_put ::
  "adapter \<Rightarrow> (pyval \<Rightarrow> (string \<times> pyval) list \<Rightarrow> database \<Rightarrow> (error + pyval) \<times> database) \<Rightarrow>
     (database handler \<Rightarrow> error + (string \<times> pyval) list) \<Rightarrow> string list \<Rightarrow>
     (unit, database) handler_method" where
  "rest_put ad update get_request_data args h =
     (case get_parent_model ad args (db h) of
        Inl e \<Rightarrow> (Inl e, h)
      | Inr (obj, field_name, model, pk) \<Rightarrow>
          (case get_request_data h of
             Inl e \<Rightarrow> (Inl e, h)
           | Inr data \<Rightarrow>
               (case update (case pk of None \<Rightarrow> PNone | Some s \<Rightarrow> PStr s) data (db h) of
                  (Inl e, d) \<Rightarrow> (Inl e, h\<lparr>db := d\<rparr>)
                | (Inr result, d) \<Rightarrow>
                    (case unpack_pair result of
                       Inl e \<Rightarrow> (Inl e, h\<lparr>db := d\<rparr>)
                     | Inr (instance, updated) \<Rightarrow>
                         write_chunk (Text ''OK'')
                           (send (PostUpdateInstance (adapter_model ad) instance updated)
                              (h\<lparr>db := d\<rparr>))))))"

text \<open>
  Notions for the statements about updates: a key without dot that names an attribute of the
  instance and no relationship; the entry of the change record one item adds; the assignment
  one item makes; a session with the attributes of one instance replaced.
\<close>

definition plain_key :: "model_class \<Rightarrow> database \<Rightarrow> ref \<Rightarrow> string \<Rightarrow> bool" where
  "plain_key model d r k =
     (CHR ''.'' \<notin> set k \<and> \<not> is_reference_field (model_fields model k)
      \<and> attrs (heap d r) k \<noteq> None)"

definition change :: "database \<Rightarrow> ref \<Rightarrow> string \<times> pyval \<Rightarrow> (string \<times> pyval) list \<Rightarrow> (string \<times> pyval) list" where
  "change d r kv u =
     dict_set u (fst kv) (PDict [(''from'', the (attrs (heap d r) (fst kv))), (''to'', snd kv)])"

definition assign :: "string \<times> pyval \<Rightarrow> (string \<rightharpoonup> pyval) \<Rightarrow> (string \<rightharpoonup> pyval)" where
  "assign kv a = a(fst kv \<mapsto> snd kv)"

definition with_attrs :: "database \<Rightarrow> ref \<Rightarrow> (string \<rightharpoonup> pyval) \<Rightarrow> database" where
  "with_attrs d r a = d\<lparr>heap := (heap d)(r := (heap d r)\<lparr>attrs := a\<rparr>)\<rparr>"


section \<open>Example data\<close>

text \<open>
  A codec that accepts exactly the cookie \<open>valid-token\<close>, the options built from it by
  \<open>configure\<close>, a fresh request, and an identity provider that knows one access token.
\<close>

definition example_jwt :: Jwt where
  "example_jwt =
     \<lparr>encode = (\<lambda>p. ''renewed-token''),
      try_to_decode = (\<lambda>c. if c = Some ''valid-token''
                            then (True, Some [''sub'' \<mapsto> PStr ''u1''])
                            else (False, None))\<rparr>"

definition example_options :: authentication_options where
  "example_options = configure (\<lambda>key. example_jwt) ''secret'' 1200 ''AUTH_TOKEN''"

definition example_request :: "(string \<rightharpoonup> string) \<Rightarrow> string \<Rightarrow> unit handler" where
  "example_request cookies body =
     \<lparr>request_cookies = cookies, request_body = body, status = 200, reason = ''OK'',
      headers = [], new_cookie = Map.empty, written = [], finished = False, signals = [],
      clock = 0, db = ()\<rparr>"

definition example_loads :: "string \<Rightarrow> error + (string \<times> pyval) list" where
  "example_loads body =
     (if body = ''{}'' then Inr []
      else Inr [(''access_token'', PStr body), (''provider'', PStr ''google'')])"

definition example_provider :: provider where
  "example_provider token =
     (if token = PStr ''good''
      then Inr (PDict [(''id'', PStr ''u1''), (''name'', PStr ''Ann'')])
      else Inr PNone)"

text \<open>A table of one user, and an adapter on the SQLAlchemy provider's operations.\<close>

definition example_user :: model_class where
  "example_user =
     \<lparr>class_name = ''User'', tablename = ''users'',
      model_fields = [''id'' \<mapsto> Column, ''name'' \<mapsto> Column],
      id_field_name = None, get_instance_queryset = None\<rparr>"

definition example_db :: database where
  "example_db =
     \<lparr>heap = (\<lambda>r. \<lparr>cls = ''User'',
                     attrs = [''id'' \<mapsto> PStr ''1'', ''name'' \<mapsto> PStr ''Ann''],
                     to_dict = None\<rparr>),
      table = (\<lambda>c. if c = ''User'' then [0] else []),
      pending_delete = []\<rparr>"

text \<open>
  An encoder for the examples: \<open>None\<close> and strings as JSON has them, an instance as the
  object of its name; it refuses everything else.
\<close>

definition quoted :: "string \<Rightarrow> string" where
  "quoted s =
     [CHR 0x22]
       @ concat (map (\<lambda>c. if c = CHR 0x22 \<or> c = CHR 0x5C then [CHR 0x5C, c] else [c]) s)
       @ [CHR 0x22]"

fun example_dumps :: "database \<Rightarrow> pyval \<Rightarrow> error + string" where
  "example_dumps d PNone = Inr ''null''"
| "example_dumps d (PStr s) = Inr (quoted s)"
| "example_dumps d (PRef r) =
     (case attrs (heap d r) ''name'' of
        Some (PStr n) \<Rightarrow> Inr (''{'' @ quoted ''name'' @ '':'' @ quoted n @ ''}'')
      | _ \<Rightarrow> Inl TypeError)"
| "example_dumps d v = Inl TypeError"

definition example_adapter :: adapter where
  "example_adapter =
     \<lparr>adapter_model = ''User'',
      adapter_get_instance = get_instance example_user,
      adapter_get_model = (\<lambda>obj field_name d. Inr (Some ''User'')),
      adapter_get_list = (\<lambda>d. Inr (map PRef (table d ''User''))),
      adapter_delete_instance = delete_instance example_user,
      json_dumps = example_dumps\<rparr>"

definition example_rest_request :: "database handler" where
  "example_rest_request =
     \<lparr>request_cookies = Map.empty, request_body = [], status = 200, reason = ''OK'',
      headers = [], new_cookie = Map.empty, written = [], finished = False, signals = [],
      clock = 0, db = example_db\<rparr>"

text \<open>
  A chain of three items, each with a scalar \<open>name\<close>, a single-valued reference
  \<open>next\<close> and a multi-valued reference \<open>tags\<close>; and the same chain with a
  \<open>to_dict\<close> on the first item.
\<close>

definition item_nodes :: "(string \<times> node) list" where
  "item_nodes =
     [(''name'', \<lparr>model_type = None, is_multiple = False\<rparr>),
      (''next'', \<lparr>model_type = Some ''Item'', is_multiple = False\<rparr>),
      (''tags'', \<lparr>model_type = Some ''Tag'', is_multiple = True\<rparr>)]"

definition chain_tree :: tree where
  "chain_tree c = (if c = ''Item'' then Some item_nodes else None)"

definition chain_db :: database where
  "chain_db =
     \<lparr>heap = (\<lambda>r. \<lparr>cls = ''Item'',
                     attrs = [''name'' \<mapsto> PStr (if r = 0 then ''a'' else if r = 1 then ''b'' else ''c''),
                              ''next'' \<mapsto> (if r < 2 then PRef (Suc r) else PNone),
                              ''tags'' \<mapsto> PList []],
                     to_dict = None\<rparr>),
      table = (\<lambda>c. if c = ''Item'' then [0, 1, 2] else []),
      pending_delete = []\<rparr>"

definition custom_db :: database where
  "custom_db =
     chain_db\<lparr>heap := (heap chain_db)
        (0 := (heap chain_db 0)\<lparr>to_dict := Some (PDict [(''tags'', PList [PStr ''t1''])])\<rparr>)\<rparr>"

text \<open>
  A model with a single-valued and a list-valued relationship to itself, and a session with
  two stored members of staff; every other reference is a freshly constructed one.
\<close>

definition staff :: model_class where
  "staff =
     \<lparr>class_name = ''Staff'', tablename = ''staff'',
      model_fields = [''id'' \<mapsto> Column, ''name'' \<mapsto> Column,
                      ''boss'' \<mapsto> Relationship ''staff'' False,
                      ''team'' \<mapsto> Relationship ''staff'' True],
      id_field_name = None, get_instance_queryset = None\<rparr>"

definition staff_provider :: sqlalchemy_provider where
  "staff_provider = \<lparr>provider_model = staff, registry = [staff]\<rparr>"

definition staff_member :: "pyval \<Rightarrow> pyval \<Rightarrow> pyval \<Rightarrow> obj" where
  "staff_member i n b =
     \<lparr>cls = ''Staff'',
      attrs = [''id'' \<mapsto> i, ''name'' \<mapsto> n, ''boss'' \<mapsto> b, ''team'' \<mapsto> PList []],
      to_dict = None\<rparr>"

definition staff_db :: database where
  "staff_db =
     \<lparr>heap = (\<lambda>r. if r = 0 then staff_member (PStr ''1'') (PStr ''Ann'') (PRef 1)
                   else if r = 1 then staff_member (PStr ''2'') (PStr ''Bob'') PNone
                   else staff_member PNone PNone PNone),
      table = (\<lambda>c. if c = ''Staff'' then [0, 1] else []),
      pending_delete = []\<rparr>"

definition example_str :: "pyval \<Rightarrow> string" where
  "example_str v = (case v of PStr s \<Rightarrow> s | _ \<Rightarrow> ''None'')"




section \<open>Theorems\<close>

subsection \<open>Pagination\<close>

lemma page_count_div: "page_count q per_page = - (- int (length q) div per_page)"
  unfolding page_count_def by (rule ceiling_divide_eq_div)

lemma page_count_zero_iff: "0 < per_page \<Longrightarrow> page_count q per_page = 0 \<longleftrightarrow> q = []"
  unfolding page_count_def by (auto simp: ceiling_eq_iff divide_le_0_iff)

lemma take_drop_nth:
  "take k (drop a xs) = map ((!) xs) [a ..< min (a + k) (length xs)]"
  by (rule nth_equalityI) auto

lemma py_slice_nonneg:
  assumes "0 \<le> start" "start \<le> stop"
  shows "py_slice xs start stop = map ((!) xs) [nat start ..< min (nat stop) (length xs)]"
proof (cases "start \<le> int (length xs)")
  case True
  then have "nat (min stop (int (length xs)) - start) + nat start = nat (min stop (int (length xs)))"
    using assms by linarith
  then show ?thesis using assms True unfolding py_slice_def Let_def take_drop_nth
    by (simp add: min_def add.commute nat_le_iff split: if_splits)
next
  case False
  then show ?thesis using assms unfolding py_slice_def Let_def
    by (simp add: min_def nat_le_iff)
qed

text \<open>
  The model of the float arithmetic: \<open>exponent\<close> is the binary exponent, rounding to even is
  within one half and monotone, integers below \<open>2^53\<close> are doubles, and a normal number is
  rounded with a relative error of at most \<open>2^-53\<close>.
\<close>

lemma exponent_lower:
  assumes "0 < x"
  shows "2 powi exponent x \<le> x"
proof (cases "1 \<le> x")
  case True
  then have m: "0 < \<lfloor>x\<rfloor>" by simp
  from bitlen_bounds [OF m] have "(2::int) ^ nat (bitlen \<lfloor>x\<rfloor> - 1) \<le> \<lfloor>x\<rfloor>" by simp
  then have "(of_int ((2::int) ^ nat (bitlen \<lfloor>x\<rfloor> - 1)) :: rat) \<le> of_int \<lfloor>x\<rfloor>"
    by (simp only: of_int_le_iff)
  also have "\<dots> \<le> x" by simp
  finally have "(2::rat) ^ nat (bitlen \<lfloor>x\<rfloor> - 1) \<le> x" by simp
  moreover have "0 \<le> bitlen \<lfloor>x\<rfloor> - 1"
    using m by (simp add: bitlen_alt_def)
  ultimately show ?thesis
    using True by (simp add: exponent_def power_int_def)
next
  case False
  with assms have "1 < 1 / x" by simp
  then have m: "0 < \<lceil>1 / x\<rceil> - 1" by (simp add: less_ceiling_iff)
  let ?k = "bitlen (\<lceil>1 / x\<rceil> - 1)"
  from bitlen_bounds [OF m] have "\<lceil>1 / x\<rceil> - 1 < (2::int) ^ nat ?k" by simp
  then have "\<lceil>1 / x\<rceil> \<le> (2::int) ^ nat ?k" by simp
  then have "(of_int \<lceil>1 / x\<rceil> :: rat) \<le> of_int ((2::int) ^ nat ?k)"
    by (simp only: of_int_le_iff)
  then have "(of_int \<lceil>1 / x\<rceil> :: rat) \<le> 2 ^ nat ?k"
    by simp
  with le_of_int_ceiling [of "1 / x"] have "1 / x \<le> (2::rat) ^ nat ?k"
    by (rule order_trans)
  then have "1 / (2::rat) ^ nat ?k \<le> x"
    using assms by (simp add: field_simps)
  moreover have "1 \<le> ?k" using m by (simp add: bitlen_alt_def)
  ultimately show ?thesis
    using False by (simp add: exponent_def power_int_def inverse_eq_divide power_one_over)
qed

lemma exponent_upper:
  assumes "0 < x"
  shows "x < 2 powi (exponent x + 1)"
proof (cases "1 \<le> x")
  case True
  then have m: "0 < \<lfloor>x\<rfloor>" by simp
  from bitlen_bounds [OF m] have "\<lfloor>x\<rfloor> + 1 \<le> (2::int) ^ nat (bitlen \<lfloor>x\<rfloor>)" by simp
  then have "(of_int (\<lfloor>x\<rfloor> + 1) :: rat) \<le> of_int ((2::int) ^ nat (bitlen \<lfloor>x\<rfloor>))"
    by (simp only: of_int_le_iff)
  moreover have "x < of_int (\<lfloor>x\<rfloor> + 1)" by linarith
  ultimately have "x < (2::rat) ^ nat (bitlen \<lfloor>x\<rfloor>)" by simp
  moreover have "0 \<le> bitlen \<lfloor>x\<rfloor>" by (rule bitlen_nonneg)
  ultimately show ?thesis
    using True by (simp add: exponent_def power_int_def)
next
  case False
  with assms have "1 < 1 / x" by simp
  then have m: "0 < \<lceil>1 / x\<rceil> - 1" by (simp add: less_ceiling_iff)
  let ?k = "bitlen (\<lceil>1 / x\<rceil> - 1)"
  have k: "1 \<le> ?k" using m by (simp add: bitlen_alt_def)
  from bitlen_bounds [OF m] have "(2::int) ^ nat (?k - 1) \<le> \<lceil>1 / x\<rceil> - 1" by simp
  then have "(of_int ((2::int) ^ nat (?k - 1)) :: rat) \<le> of_int (\<lceil>1 / x\<rceil> - 1)"
    by (simp only: of_int_le_iff)
  moreover have "of_int (\<lceil>1 / x\<rceil> - 1) < 1 / x" by linarith
  ultimately have "(2::rat) ^ nat (?k - 1) < 1 / x" by simp
  then have "x < 1 / (2::rat) ^ nat (?k - 1)"
    using assms by (simp add: field_simps)
  moreover have "- ?k + 1 \<le> 0" using k by simp
  moreover have "nat (- (- ?k + 1)) = nat (?k - 1)" by simp
  ultimately show ?thesis
    using False k
    by (simp add: exponent_def power_int_def inverse_eq_divide power_one_over)
qed

lemma round_half_even_of_int: "round_half_even (of_int n) = n"
  by (simp add: round_half_even_def)

lemma round_half_even_error: "\<bar>of_int (round_half_even x) - x\<bar> \<le> 1 / 2"
proof -
  have "of_int \<lfloor>x\<rfloor> \<le> x" "x < of_int \<lfloor>x\<rfloor> + 1" by linarith+
  then show ?thesis
    unfolding round_half_even_def Let_def by (simp add: abs_if) linarith
qed

lemma round_half_even_le: "x \<le> of_int n \<Longrightarrow> round_half_even x \<le> n"
proof -
  assume a: "x \<le> of_int n"
  have fl: "\<lfloor>x\<rfloor> \<le> n" using a by (simp add: floor_le_iff)
  show ?thesis
  proof (cases "\<lfloor>x\<rfloor> = n")
    case True
    then have "x = of_int n" using a by (metis of_int_floor_le order_antisym)
    then show ?thesis by (simp add: round_half_even_of_int)
  next
    case False
    with fl have "\<lfloor>x\<rfloor> + 1 \<le> n" by simp
    then show ?thesis by (auto simp: round_half_even_def Let_def)
  qed
qed

lemma round_half_even_ge: "of_int n \<le> x \<Longrightarrow> n \<le> round_half_even x"
proof -
  assume "of_int n \<le> x"
  then have "n \<le> \<lfloor>x\<rfloor>" by (simp add: le_floor_iff)
  then show ?thesis by (auto simp: round_half_even_def Let_def)
qed


lemma two_powi_nonpos: "k \<le> 0 \<Longrightarrow> (2::rat) powi k = 1 / 2 ^ nat (- k)"
  by (cases "k = 0") (simp_all add: power_int_def inverse_eq_divide power_one_over)

lemma exponent_less:
  assumes "0 < x" and "x < 2 powi n"
  shows "exponent x < n"
proof (rule ccontr)
  assume "\<not> exponent x < n"
  then have "(2::rat) powi n \<le> 2 powi exponent x"
    by (intro power_int_increasing) simp_all
  with exponent_lower [OF assms(1)] assms(2) show False by simp
qed

lemma exponent_ge:
  assumes "0 < x" and "2 powi n \<le> x"
  shows "n \<le> exponent x"
proof (rule ccontr)
  assume "\<not> n \<le> exponent x"
  then have "(2::rat) powi (exponent x + 1) \<le> 2 powi n"
    by (intro power_int_increasing) simp_all
  with exponent_upper [OF assms(1)] assms(2) show False by simp
qed

lemma nearest_double_of_int:
  assumes "\<bar>n\<bar> < 2 ^ 53"
  shows "nearest_double (of_int n) = of_int n"
proof (cases "n = 0")
  case True
  then show ?thesis by (simp add: nearest_double_def)
next
  case False
  let ?x = "of_int n :: rat"
  let ?k = "max (exponent \<bar>?x\<bar> - 52) (- 1074)"
  have pos: "0 < \<bar>?x\<bar>" using False by simp
  have "\<bar>?x\<bar> < of_int (2 ^ 53)"
    using assms by (simp only: of_int_abs [symmetric] of_int_less_iff)
  then have "\<bar>?x\<bar> < 2 powi 53" by simp
  from exponent_less [OF pos this] have k: "?k \<le> 0" by simp
  have q: "(2::rat) powi ?k = 1 / 2 ^ nat (- ?k)"
    by (rule two_powi_nonpos [OF k])
  have "?x / (2 powi ?k) = of_int (n * 2 ^ nat (- ?k))"
    by (simp add: q)
  then have "round_half_even (?x / (2 powi ?k)) = n * 2 ^ nat (- ?k)"
    by (simp only: round_half_even_of_int)
  then have "of_int (round_half_even (?x / (2 powi ?k))) * (2 powi ?k) = ?x"
    by (simp add: q)
  then show ?thesis
    using False by (simp add: nearest_double_def Let_def)
qed

lemma nearest_double_error:
  assumes "0 < x" and "2 powi (- 1022) \<le> x"
  shows "\<bar>nearest_double x - x\<bar> \<le> x / 2 ^ 53"
proof -
  let ?e = "exponent x"
  from exponent_ge [OF assms] have e: "- 1022 \<le> ?e" .
  then have k: "max (?e - 52) (- 1074) = ?e - 52" by simp
  let ?q = "(2::rat) powi (?e - 52)"
  have qpos: "0 < ?q" by (simp add: zero_less_power_int)
  have nd: "nearest_double x = of_int (round_half_even (x / ?q)) * ?q"
    using assms(1) by (simp add: nearest_double_def Let_def k)
  have "\<bar>of_int (round_half_even (x / ?q)) * ?q - x\<bar>
          = \<bar>of_int (round_half_even (x / ?q)) - x / ?q\<bar> * ?q"
  proof -
    have "of_int (round_half_even (x / ?q)) * ?q - x
            = (of_int (round_half_even (x / ?q)) - x / ?q) * ?q"
      using qpos by (simp add: left_diff_distrib)
    then show ?thesis
      using qpos by (simp add: abs_mult)
  qed
  also have "\<dots> \<le> (1 / 2) * ?q"
    using round_half_even_error [of "x / ?q"] qpos by (intro mult_right_mono) simp_all
  also have "\<dots> = 2 powi ?e / 2 ^ 53"
    by (simp add: power_int_diff)
  also have "\<dots> \<le> x / 2 ^ 53"
    using exponent_lower [OF assms(1)] by (simp add: divide_right_mono)
  finally show ?thesis by (simp only: nd)
qed

lemma nearest_double_normal:
  assumes "0 < x" and "2 powi (- 1022) \<le> x"
  shows "nearest_double x = of_int (round_half_even (x / 2 powi (exponent x - 52))) * 2 powi (exponent x - 52)"
proof -
  from exponent_ge [OF assms] have "max (exponent x - 52) (- 1074) = exponent x - 52" by simp
  then show ?thesis using assms(1) by (simp add: nearest_double_def Let_def)
qed

lemma nearest_double_lower:
  assumes "0 < x" and "2 powi (- 1022) \<le> x"
  shows "2 powi exponent x \<le> nearest_double x"
proof -
  let ?q = "(2::rat) powi (exponent x - 52)"
  have qpos: "0 < ?q" by (simp add: zero_less_power_int)
  have "2 powi exponent x / ?q \<le> x / ?q"
    using exponent_lower [OF assms(1)] qpos by (simp add: divide_right_mono)
  moreover have "2 powi exponent x / ?q = of_int (2 ^ 52)"
    by (simp add: power_int_diff)
  ultimately have "of_int (2 ^ 52) \<le> x / ?q" by simp
  then have "2 ^ 52 \<le> round_half_even (x / ?q)" by (rule round_half_even_ge)
  then have "(of_int (2 ^ 52) :: rat) \<le> of_int (round_half_even (x / ?q))"
    by (simp only: of_int_le_iff)
  then have "of_int (2 ^ 52) * ?q \<le> of_int (round_half_even (x / ?q)) * ?q"
    using qpos by (intro mult_right_mono) simp_all
  moreover have "of_int (2 ^ 52) * ?q = 2 powi exponent x"
    by (simp add: power_int_diff)
  ultimately show ?thesis
    by (simp only: nearest_double_normal [OF assms])
qed

lemma nearest_double_upper:
  assumes "0 < x" and "2 powi (- 1022) \<le> x"
  shows "nearest_double x \<le> 2 powi (exponent x + 1)"
proof -
  let ?q = "(2::rat) powi (exponent x - 52)"
  have qpos: "0 < ?q" by (simp add: zero_less_power_int)
  have "x / ?q \<le> 2 powi (exponent x + 1) / ?q"
    using exponent_upper [OF assms(1)] qpos by (simp add: divide_right_mono)
  moreover have "2 powi (exponent x + 1) / ?q = of_int (2 ^ 53)"
    by (simp add: power_int_diff power_int_add)
  ultimately have "x / ?q \<le> of_int (2 ^ 53)" by simp
  then have "round_half_even (x / ?q) \<le> 2 ^ 53" by (rule round_half_even_le)
  then have "(of_int (round_half_even (x / ?q)) :: rat) \<le> of_int (2 ^ 53)"
    by (simp only: of_int_le_iff)
  then have "of_int (round_half_even (x / ?q)) * ?q \<le> of_int (2 ^ 53) * ?q"
    using qpos by (intro mult_right_mono) simp_all
  moreover have "of_int (2 ^ 53) * ?q = 2 powi (exponent x + 1)"
    by (simp add: power_int_diff power_int_add)
  ultimately show ?thesis
    by (simp only: nearest_double_normal [OF assms])
qed

lemma ceiling_nearest_double_quotient:
  assumes "0 \<le> a" and "a < 2 ^ 53" and "0 < b" and "b < 2 ^ 53"
  shows "\<lceil>nearest_double (of_int a / of_int b)\<rceil> = \<lceil>(of_int a / of_int b :: rat)\<rceil>"
proof (cases "a mod b = 0")
  case True
  then obtain c where c: "a = b * c" by auto
  with assms have "0 \<le> c" by (simp add: zero_le_mult_iff)
  moreover have "c \<le> a" using c assms \<open>0 \<le> c\<close> by (simp add: mult_le_cancel_right1)
  ultimately have "\<bar>c\<bar> < 2 ^ 53" using assms by simp
  from nearest_double_of_int [OF this] have "nearest_double (of_int c) = of_int c" .
  moreover have "(of_int a / of_int b :: rat) = of_int c" using c assms by simp
  ultimately show ?thesis by simp
next
  case False
  let ?x = "of_int a / of_int b :: rat"
  let ?f = "a div b" and ?r = "a mod b"
  have r: "1 \<le> ?r" "?r \<le> b - 1"
    using False assms pos_mod_sign [of b a] pos_mod_bound [of b a] by linarith+
  have bpos: "0 < (of_int b :: rat)" using assms by simp
  have "of_int a = (of_int b * of_int ?f + of_int ?r :: rat)"
    by (metis mult_div_mod_eq of_int_add of_int_mult)
  then have x: "?x = of_int ?f + of_int ?r / of_int b"
    using bpos by (simp add: field_simps)
  have rlo: "1 / of_int b \<le> (of_int ?r / of_int b :: rat)"
    using r bpos by (simp add: divide_right_mono)
  have "(of_int ?r :: rat) \<le> of_int (b - 1)" using r by (simp only: of_int_le_iff)
  then have rhi: "(of_int ?r / of_int b :: rat) \<le> 1 - 1 / of_int b"
    using bpos by (simp add: field_simps)
  have apos: "0 < a" using False assms by (cases "a = 0") simp_all
  have xpos: "0 < ?x" using apos bpos by simp
  have "(1 :: rat) / of_int (2 ^ 53) < 1 / of_int b"
    using assms bpos by (intro divide_strict_left_mono) (simp_all only: of_int_less_iff, simp_all)
  then have small: "(1 :: rat) / 2 ^ 53 < 1 / of_int b" by simp
  have "1 / of_int b \<le> ?x" using x rlo r assms
    by (smt (verit) div_int_pos_iff of_int_nonneg add_increasing)
  with small have "1 / 2 ^ 53 \<le> ?x" by linarith
  moreover have "(2::rat) powi (- 1022) \<le> 1 / 2 ^ 53"
  proof -
    have "(2::rat) powi (- 1022) \<le> 2 powi (- 53)"
      by (intro power_int_increasing) simp_all
    also have "(2::rat) powi (- 53) = 1 / 2 ^ 53"
      by (simp add: power_int_minus_divide)
    finally show ?thesis .
  qed
  ultimately have normal: "2 powi (- 1022) \<le> ?x" by linarith
  have "(of_int a :: rat) < of_int (2 ^ 53)" using assms by (simp only: of_int_less_iff)
  then have "?x / 2 ^ 53 < 1 / of_int b"
    using bpos by (simp add: field_simps)
  with nearest_double_error [OF xpos normal]
  have err: "\<bar>nearest_double ?x - ?x\<bar> < 1 / of_int b" by linarith
  have lo: "of_int ?f < nearest_double ?x" using err x rlo by linarith
  have hi: "nearest_double ?x \<le> of_int ?f + 1" using err x rhi by linarith
  have binv: "0 < 1 / (of_int b :: rat)" using bpos by simp
  have xlo: "of_int ?f < ?x" using x rlo binv by linarith
  have xhi: "?x \<le> of_int ?f + 1" using x rhi binv by linarith
  have "\<lceil>nearest_double ?x\<rceil> = ?f + 1"
    using lo hi by (intro ceiling_unique) simp_all
  moreover have "\<lceil>?x\<rceil> = ?f + 1"
    using xlo xhi by (intro ceiling_unique) simp_all
  ultimately show ?thesis by simp
qed

lemma nearest_double_large:
  assumes "2 ^ 53 \<le> b"
  shows "2 ^ 53 \<le> nearest_double (of_int b)"
proof -
  let ?x = "of_int b :: rat"
  have "(of_int (2 ^ 53) :: rat) \<le> ?x" using assms by (simp only: of_int_le_iff)
  then have big: "2 powi 53 \<le> ?x" by simp
  moreover have "(0::rat) < 2 powi 53" by (simp add: zero_less_power_int)
  ultimately have pos: "0 < ?x" by linarith
  have "(2::rat) powi (- 1022) \<le> 2 powi 53" by (intro power_int_increasing) simp_all
  with big have normal: "2 powi (- 1022) \<le> ?x" by linarith
  have "(2::rat) powi 53 \<le> 2 powi exponent ?x"
    using exponent_ge [OF pos big] by (intro power_int_increasing) simp_all
  with nearest_double_lower [OF pos normal] have "2 powi 53 \<le> nearest_double ?x" by linarith
  then show ?thesis by simp
qed

lemma nearest_double_pos:
  "0 < x \<Longrightarrow> nearest_double x =
     of_int (round_half_even (x / 2 powi max (exponent x - 52) (- 1074)))
       * 2 powi max (exponent x - 52) (- 1074)"
  by (simp add: nearest_double_def Let_def)

lemma nearest_double_finite:
  assumes "0 < b" and "b < 2 ^ 1024 - 2 ^ 970"
  shows "nearest_double (of_int b) < 2 powi 1024"
proof (cases "b < 2 ^ 53")
  case True
  with assms have "\<bar>b\<bar> < 2 ^ 53" by simp
  from nearest_double_of_int [OF this] have "nearest_double (of_int b) = of_int b" .
  moreover have "(of_int b :: rat) < of_int (2 ^ 53)" using True by (simp only: of_int_less_iff)
  moreover have "(2::rat) powi 53 < 2 powi 1024" by (intro power_int_strict_increasing) simp_all
  ultimately show ?thesis by simp
next
  case False
  let ?x = "of_int b :: rat"
  define Q :: rat where "Q = 2 powi 971"
  have Qpos: "0 < Q" by (simp add: Q_def zero_less_power_int)
  have top: "(2::rat) powi 1024 = 2 ^ 53 * Q"
    using power_int_add [of "2::rat" 53 971] by (simp add: Q_def)
  have lim: "(of_int (2 ^ 1024 - 2 ^ 970) :: rat) = (2 ^ 53 - 1 / 2) * Q"
    by (simp add: Q_def)
  have "(of_int (2 ^ 53) :: rat) \<le> ?x" using False by (simp only: of_int_le_iff)
  then have big: "2 powi 53 \<le> ?x" by simp
  moreover have "(0::rat) < 2 powi 53" by (simp add: zero_less_power_int)
  ultimately have pos: "0 < ?x" by linarith
  have "(2::rat) powi (- 1022) \<le> 2 powi 53" by (intro power_int_increasing) simp_all
  with big have normal: "2 powi (- 1022) \<le> ?x" by linarith
  have "?x < of_int (2 ^ 1024 - 2 ^ 970)" using assms by (simp only: of_int_less_iff)
  then have below: "?x < (2 ^ 53 - 1 / 2) * Q" by (simp only: lim)
  moreover have "(2 ^ 53 - 1 / 2) * Q < 2 ^ 53 * Q"
    using Qpos by (intro mult_strict_right_mono) simp_all
  ultimately have "?x < 2 ^ 53 * Q" by linarith
  then have "?x < 2 powi 1024" by (simp only: top)
  from exponent_less [OF pos this] have e: "exponent ?x \<le> 1023" by simp
  show ?thesis
  proof (cases "exponent ?x = 1023")
    case True
    have "(2::rat) powi (exponent ?x - 52) = Q" by (simp add: True Q_def)
    then have nd: "nearest_double ?x = of_int (round_half_even (?x / Q)) * Q"
      by (simp only: nearest_double_normal [OF pos normal])
    have "?x / Q < 2 ^ 53 - 1 / 2" using below Qpos by (simp add: field_simps)
    moreover have "of_int (round_half_even (?x / Q)) - ?x / Q \<le> 1 / 2"
      using round_half_even_error [of "?x / Q"] by linarith
    ultimately have "of_int (round_half_even (?x / Q)) < (2 ^ 53 :: rat)" by linarith
    then have "of_int (round_half_even (?x / Q)) < (of_int (2 ^ 53) :: rat)" by simp
    then have "round_half_even (?x / Q) < 2 ^ 53" by (simp only: of_int_less_iff)
    then have "round_half_even (?x / Q) \<le> 2 ^ 53 - 1" by simp
    then have "(of_int (round_half_even (?x / Q)) :: rat) \<le> of_int (2 ^ 53 - 1)"
      by (simp only: of_int_le_iff)
    then have "of_int (round_half_even (?x / Q)) * Q \<le> of_int (2 ^ 53 - 1) * Q"
      using Qpos by (intro mult_right_mono) simp_all
    also have "\<dots> < 2 ^ 53 * Q" using Qpos by (intro mult_strict_right_mono) simp_all
    finally show ?thesis by (simp only: nd top)
  next
    case False
    with e have "exponent ?x + 1 \<le> 1023" by simp
    then have "(2::rat) powi (exponent ?x + 1) \<le> 2 powi 1023"
      by (intro power_int_increasing) simp_all
    moreover have "(2::rat) powi 1023 < 2 powi 1024"
      by (intro power_int_strict_increasing) simp_all
    ultimately show ?thesis using nearest_double_upper [OF pos normal] by linarith
  qed
qed

lemma ceiling_nearest_double_small:
  assumes "0 < a" and "a < 2 ^ 53" and "2 ^ 53 \<le> y" and "y < 2 powi 1024"
  shows "\<lceil>nearest_double (of_int a / y)\<rceil> = 1"
proof -
  let ?x = "of_int a / y :: rat"
  have "(0::rat) < 2 ^ 53" by simp
  with assms(3) have ypos: "0 < y" by linarith
  have apos: "0 < (of_int a :: rat)" using assms by simp
  have xpos: "0 < ?x" using apos ypos by simp
  have "(of_int a :: rat) < of_int (2 ^ 53)" using assms by (simp only: of_int_less_iff)
  then have "of_int a < y" using assms by simp
  then have xlt: "?x < 1" using ypos by simp
  have "1 \<le> a" using assms by simp
  then have "(of_int 1 :: rat) \<le> of_int a" by (simp only: of_int_le_iff)
  then have "(1 :: rat) \<le> of_int a" by simp
  then have "1 / y \<le> ?x" using ypos by (simp add: divide_right_mono)
  moreover have "1 / 2 powi 1024 < 1 / y"
    using assms ypos by (intro divide_strict_left_mono) simp_all
  moreover have "(2::rat) powi (- 1024) = 1 / 2 powi 1024"
    by (simp only: power_int_minus_divide)
  ultimately have xlo: "2 powi (- 1024) < ?x"
    by linarith
  let ?k = "max (exponent ?x - 52) (- 1074)"
  let ?q = "(2::rat) powi ?k"
  have qpos: "0 < ?q" by (simp add: zero_less_power_int)
  have nd: "nearest_double ?x = of_int (round_half_even (?x / ?q)) * ?q"
    by (rule nearest_double_pos [OF xpos])
  have "?x < 2 powi 0" using xlt by simp
  from exponent_less [OF xpos this] have k: "?k \<le> 0" by simp
  have q: "?q = 1 / 2 ^ nat (- ?k)" by (rule two_powi_nonpos [OF k])
  have ge1: "of_int 1 \<le> ?x / ?q"
  proof (cases "- 1074 \<le> exponent ?x - 52")
    case True
    then have qe: "?q = 2 powi (exponent ?x - 52)" by simp
    have "2 powi exponent ?x / (2::rat) powi (exponent ?x - 52) = 2 ^ 52"
      by (simp add: power_int_diff)
    then have "2 powi exponent ?x / ?q = 2 ^ 52" by (simp only: qe)
    moreover have "2 powi exponent ?x / ?q \<le> ?x / ?q"
      by (rule divide_right_mono [OF exponent_lower [OF xpos] less_imp_le [OF qpos]])
    moreover have "(1::rat) \<le> 2 ^ 52" by simp
    ultimately have "1 \<le> ?x / ?q" by linarith
    then show ?thesis by (simp only: of_int_1)
  next
    case False
    then have qe: "?q = 2 powi (- 1074)" by simp
    have "(2::rat) powi (- 1024) / 2 powi (- 1074) = 2 ^ 50"
      using power_int_diff [of "2::rat" "- 1024" "- 1074"] by simp
    then have "2 powi (- 1024) / ?q = 2 ^ 50" by (simp only: qe)
    moreover have "2 powi (- 1024) / ?q \<le> ?x / ?q"
      by (rule divide_right_mono [OF less_imp_le [OF xlo] less_imp_le [OF qpos]])
    moreover have "(1::rat) \<le> 2 ^ 50" by simp
    ultimately have "1 \<le> ?x / ?q" by linarith
    then show ?thesis by (simp only: of_int_1)
  qed
  then have "1 \<le> round_half_even (?x / ?q)" by (rule round_half_even_ge)
  then have "(of_int 1 :: rat) \<le> of_int (round_half_even (?x / ?q))"
    by (simp only: of_int_le_iff)
  then have "1 * ?q \<le> of_int (round_half_even (?x / ?q)) * ?q"
    using qpos by (intro mult_right_mono) simp_all
  with qpos nd have lo: "0 < nearest_double ?x" by simp
  have "?x / ?q \<le> 1 / ?q"
    by (rule divide_right_mono [OF less_imp_le [OF xlt] less_imp_le [OF qpos]])
  also have "1 / ?q = of_int (2 ^ nat (- ?k))" by (simp add: q)
  finally have "round_half_even (?x / ?q) \<le> 2 ^ nat (- ?k)" by (rule round_half_even_le)
  then have "(of_int (round_half_even (?x / ?q)) :: rat) \<le> of_int (2 ^ nat (- ?k))"
    by (simp only: of_int_le_iff)
  then have "of_int (round_half_even (?x / ?q)) * ?q \<le> of_int (2 ^ nat (- ?k)) * ?q"
    using qpos by (intro mult_right_mono) simp_all
  also have "of_int (2 ^ nat (- ?k)) * ?q = 1" by (simp add: q)
  finally have hi: "nearest_double ?x \<le> 1" by (simp only: nd)
  show ?thesis using lo hi by (intro ceiling_unique) simp_all
qed

text \<open>
  The two conversions and the page count of \<open>get_list\<close>: below \<open>2^53\<close> rows, and with a
  page size \<open>float\<close> can convert, the rounded quotient has the ceiling of the exact one.
\<close>

lemma float_of_int_exact:
  assumes "\<bar>n\<bar> < 2 ^ 53"
  shows "float_of_int n = Inr (of_int n)"
proof -
  have "(of_int \<bar>n\<bar> :: rat) < of_int (2 ^ 53)" using assms by (simp only: of_int_less_iff)
  then have "\<bar>of_int n :: rat\<bar> < 2 powi 53" by simp
  moreover have "(2::rat) powi 53 < 2 powi 1024" by (intro power_int_strict_increasing) simp_all
  ultimately have "\<not> 2 powi 1024 \<le> \<bar>of_int n :: rat\<bar>" by linarith
  then show ?thesis
    by (simp only: float_of_int_def Let_def nearest_double_of_int [OF assms] if_False)
qed

lemma nearest_double_positive:
  assumes "0 < b"
  shows "0 < nearest_double (of_int b)"
proof (cases "b < 2 ^ 53")
  case True
  with assms have "\<bar>b\<bar> < 2 ^ 53" by simp
  from nearest_double_of_int [OF this] assms show ?thesis by simp
next
  case False
  then have "2 ^ 53 \<le> b" by simp
  from nearest_double_large [OF this] have "2 ^ 53 \<le> nearest_double (of_int b)" .
  moreover have "(0::rat) < 2 ^ 53" by simp
  ultimately show ?thesis by linarith
qed

lemma float_of_int_finite:
  assumes "0 < b" and "b < 2 ^ 1024 - 2 ^ 970"
  shows "float_of_int b = Inr (nearest_double (of_int b))"
proof -
  have "\<bar>nearest_double (of_int b)\<bar> = nearest_double (of_int b)"
    using nearest_double_positive [OF assms(1)] by simp
  with nearest_double_finite [OF assms]
  have "\<not> 2 powi 1024 \<le> \<bar>nearest_double (of_int b)\<bar>" by linarith
  then show ?thesis by (simp only: float_of_int_def Let_def if_False)
qed

lemma pages_exact:
  assumes "0 \<le> a" and "a < 2 ^ 53" and "0 < b" and "b < 2 ^ 1024 - 2 ^ 970"
  shows "\<lceil>nearest_double (of_int a / nearest_double (of_int b))\<rceil>
           = \<lceil>real_of_int a / real_of_int b\<rceil>"
proof (cases "b < 2 ^ 53")
  case True
  with assms have "\<bar>b\<bar> < 2 ^ 53" by simp
  from nearest_double_of_int [OF this] have "nearest_double (of_int b) = of_int b" .
  then have "\<lceil>nearest_double (of_int a / nearest_double (of_int b))\<rceil>
               = \<lceil>(of_int a / of_int b :: rat)\<rceil>"
    using ceiling_nearest_double_quotient [OF assms(1) assms(2) assms(3) True] by simp
  also have "\<dots> = - (- a div b)" by (rule ceiling_divide_eq_div)
  also have "\<dots> = \<lceil>real_of_int a / real_of_int b\<rceil>" by (rule ceiling_divide_eq_div [symmetric])
  finally show ?thesis .
next
  case False
  then have big: "2 ^ 53 \<le> b" by simp
  show ?thesis
  proof (cases "a = 0")
    case True
    then show ?thesis by (simp add: nearest_double_def)
  next
    case nz: False
    with assms have apos: "0 < a" by simp
    have "\<lceil>nearest_double (of_int a / nearest_double (of_int b))\<rceil> = 1"
      by (rule ceiling_nearest_double_small
            [OF apos assms(2) nearest_double_large [OF big] nearest_double_finite [OF assms(3) assms(4)]])
    moreover have "\<lceil>real_of_int a / real_of_int b\<rceil> = 1"
    proof (rule ceiling_unique)
      show "real_of_int 1 - 1 < real_of_int a / real_of_int b"
        using apos assms(3) by simp
      have "a \<le> b" using assms(2) big by linarith
      then show "real_of_int a / real_of_int b \<le> real_of_int 1"
        using assms(3) by simp
    qed
    ultimately show ?thesis by simp
  qed
qed

lemma get_list_unfold:
  assumes "0 < per_page" and "per_page < 2 ^ 1024 - 2 ^ 970"
    and "int (length (list_queryset hook matches rows filters)) < 2 ^ 53"
  shows "get_list hook matches rows page per_page filters =
     (let q = list_queryset hook matches rows filters
      in if page_count q per_page = 0 then Inr []
         else Inr (py_slice q
                (per_page * ((if page > page_count q per_page then page_count q per_page else page) - 1))
                (per_page * ((if page > page_count q per_page then page_count q per_page else page) - 1) + per_page)))"
proof -
  let ?q = "list_queryset hook matches rows filters"
  have q: "fold (\<lambda>(f, v) q. filter (matches f v) q) filters
             (case hook of None \<Rightarrow> rows | Some h \<Rightarrow> h rows) = ?q"
    by (simp add: list_queryset_def)
  have "\<bar>int (length ?q)\<bar> < 2 ^ 53" using assms(3) by simp
  from float_of_int_exact [OF this]
  have count: "float_of_int (int (length ?q)) = Inr (of_int (int (length ?q)))" .
  note divisor = float_of_int_finite [OF assms(1) assms(2)]
  have nz: "nearest_double (of_int per_page) \<noteq> 0"
    using nearest_double_positive [OF assms(1)] by simp
  have pages: "\<lceil>nearest_double (of_int (int (length ?q)) / nearest_double (of_int per_page))\<rceil>
                 = page_count ?q per_page"
    unfolding page_count_def
    by (rule pages_exact [OF _ assms(3) assms(1) assms(2)]) simp
  show ?thesis
    unfolding get_list_def Let_def q count divisor
    by (simp only: sum.case nz if_False pages)
qed

text \<open>
  Claim C1, as amended. With \<open>page \<ge> 1\<close>, a page size \<open>per_page > 0\<close> that \<open>float\<close> converts
  (\<open>per_page < 2^1024 - 2^970\<close>) and fewer than \<open>2^53\<close> rows, \<open>get_list\<close> works on
  \<open>pages = ceil(count / per_page)\<close> (\<open>page_count\<close>): no page at all gives the empty list, a
  page beyond the last gives what the last page gives, and any other page gives the items
  at the indices from \<open>per_page * (page - 1)\<close> up to, not including,
  \<open>per_page * (page - 1) + per_page\<close>, in collection order (cut at the end of the
  collection). In every case a list is returned and no error is raised.
\<close>

theorem get_list_pagination:
  assumes "0 < per_page" and "1 \<le> page" and "per_page < 2 ^ 1024 - 2 ^ 970"
    and "int (length (list_queryset hook matches rows filters)) < 2 ^ 53"
  shows "get_list hook matches rows page per_page filters =
     (let q = list_queryset hook matches rows filters;
          pages = page_count q per_page
      in if pages = 0 then Inr []
         else if page > pages then get_list hook matches rows pages per_page filters
         else Inr (map ((!) q)
                [nat (per_page * (page - 1)) ..<
                 min (nat (per_page * (page - 1) + per_page)) (length q)]))
     \<and> (\<exists>items. get_list hook matches rows page per_page filters = Inr items)"
proof -
  let ?q = "list_queryset hook matches rows filters"
  let ?pages = "page_count ?q per_page"
  note unfold = get_list_unfold [OF assms(1) assms(3) assms(4)]
  have total: "\<exists>items. get_list hook matches rows page per_page filters = Inr items"
    by (simp add: unfold Let_def)
  have "get_list hook matches rows page per_page filters =
     (if ?pages = 0 then Inr []
      else if page > ?pages then get_list hook matches rows ?pages per_page filters
      else Inr (map ((!) ?q)
             [nat (per_page * (page - 1)) ..<
              min (nat (per_page * (page - 1) + per_page)) (length ?q)]))"
  proof (cases "?pages = 0")
    case True
    then show ?thesis by (simp add: unfold Let_def)
  next
    case nz: False
    show ?thesis
    proof (cases "page > ?pages")
      case True
      then show ?thesis using nz by (simp add: unfold Let_def)
    next
      case False
      have "0 \<le> per_page * (page - 1)" using assms by simp
      moreover have "per_page * (page - 1) \<le> per_page * (page - 1) + per_page"
        using assms by simp
      ultimately have "py_slice ?q (per_page * (page - 1)) (per_page * (page - 1) + per_page) =
         map ((!) ?q) [nat (per_page * (page - 1)) ..<
                 min (nat (per_page * (page - 1) + per_page)) (length ?q)]"
        by (rule py_slice_nonneg)
      then show ?thesis using nz False by (simp add: unfold Let_def)
    qed
  qed
  with total show ?thesis by (simp add: Let_def)
qed

theorem get_list_pagination_witness:
  "(0::int) < 2 \<and> (1::int) \<le> 7 \<and> (2::int) < 2 ^ 1024 - 2 ^ 970 \<and>
   int (length (list_queryset None (\<lambda>f v x. True) [10, 20, 30, 40, 50 :: nat]
                  ([] :: (nat \<times> nat) list))) < 2 ^ 53 \<and>
   page_count [10, 20, 30, 40, 50 :: nat] 2 = 3 \<and>
   get_list None (\<lambda>f v x. True) [10, 20, 30, 40, 50 :: nat] 7 2 ([] :: (nat \<times> nat) list)
     = get_list None (\<lambda>f v x. True) [10, 20, 30, 40, 50 :: nat] 3 2 ([] :: (nat \<times> nat) list) \<and>
   get_list None (\<lambda>f v x. True) [10, 20, 30, 40, 50 :: nat] 3 2 ([] :: (nat \<times> nat) list)
     = Inr [50]"
proof -
  have q: "list_queryset None (\<lambda>f v x. True) [10, 20, 30, 40, 50 :: nat] ([] :: (nat \<times> nat) list)
             = [10, 20, 30, 40, 50]"
    by (simp add: list_queryset_def)
  have pc: "page_count [10, 20, 30, 40, 50 :: nat] 2 = 3"
    by (simp add: page_count_div)
  have b: "(2::int) < 2 ^ 1024 - 2 ^ 970" by simp
  have c: "int (length (list_queryset None (\<lambda>f v x. True) [10, 20, 30, 40, 50 :: nat]
                  ([] :: (nat \<times> nat) list))) < 2 ^ 53"
    by (simp add: q)
  have seven: "get_list None (\<lambda>f v x. True) [10, 20, 30, 40, 50 :: nat] 7 2 ([] :: (nat \<times> nat) list)
      = get_list None (\<lambda>f v x. True) [10, 20, 30, 40, 50 :: nat] 3 2 ([] :: (nat \<times> nat) list)"
    using get_list_pagination [of 2 7 None "\<lambda>f v x. True" "[10, 20, 30, 40, 50 :: nat]"
        "[] :: (nat \<times> nat) list", OF _ _ b c]
    by (simp add: q pc)
  have three: "get_list None (\<lambda>f v x. True) [10, 20, 30, 40, 50 :: nat] 3 2 ([] :: (nat \<times> nat) list)
      = Inr [50]"
    using get_list_pagination [of 2 3 None "\<lambda>f v x. True" "[10, 20, 30, 40, 50 :: nat]"
        "[] :: (nat \<times> nat) list", OF _ _ b c]
    by (simp add: q pc)
  show ?thesis using b c pc seven three by simp
qed

text \<open>
  Where the float arithmetic leaves the exact one: the smallest integer \<open>float\<close> refuses, and
  the first integer that is no double, which is rounded to its even neighbour.
\<close>

lemma exponent_unique:
  assumes "0 < x" and "2 powi n \<le> x" and "x < 2 powi m" and "m = n + 1"
  shows "exponent x = n"
  using exponent_ge [OF assms(1) assms(2)] exponent_less [OF assms(1) assms(3)] assms(4) by simp

lemma round_half_even_tie:
  "round_half_even (of_int n + 1 / 2) = (if even n then n else n + 1)"
proof -
  have "\<lfloor>of_int n + 1 / 2 :: rat\<rfloor> = n" by (rule floor_unique) simp_all
  then show ?thesis by (simp add: round_half_even_def Let_def)
qed

lemma float_of_int_overflow: "float_of_int (2 ^ 1024 - 2 ^ 970) = Inl OverflowError"
proof -
  let ?x = "of_int (2 ^ 1024 - 2 ^ 970) :: rat"
  define Q :: rat where "Q = 2 powi 971"
  have Qpos: "0 < Q" by (simp add: Q_def zero_less_power_int)
  have top: "(2::rat) powi 1024 = 2 ^ 53 * Q"
    using power_int_add [of "2::rat" 53 971] by (simp add: Q_def)
  have mid: "(2::rat) powi 1023 = 2 ^ 52 * Q"
    using power_int_add [of "2::rat" 52 971] by (simp add: Q_def)
  have x: "?x = (2 ^ 53 - 1 / 2) * Q" by (simp add: Q_def)
  have "2 ^ 52 * Q \<le> (2 ^ 53 - 1 / 2) * Q"
    using Qpos by (intro mult_right_mono) simp_all
  then have lo: "2 powi 1023 \<le> ?x" by (simp only: mid x)
  have "(2 ^ 53 - 1 / 2) * Q < 2 ^ 53 * Q"
    using Qpos by (intro mult_strict_right_mono) simp_all
  then have hi: "?x < 2 powi 1024" by (simp only: top x)
  have "(0::rat) < 2 powi 1023" by (simp add: zero_less_power_int)
  with lo have pos: "0 < ?x" by linarith
  have e: "exponent ?x = 1023" by (rule exponent_unique [OF pos lo hi]) simp
  have "(2::rat) powi (- 1022) \<le> 2 powi 1023" by (intro power_int_increasing) simp_all
  with lo have normal: "2 powi (- 1022) \<le> ?x" by linarith
  have q: "(2::rat) powi (exponent ?x - 52) = Q" unfolding e by (simp add: Q_def)
  have "(2 ^ 53 - 1 / 2) * Q / Q = of_int (2 ^ 53 - 1) + 1 / 2" using Qpos by simp
  then have "?x / Q = of_int (2 ^ 53 - 1) + 1 / 2" by (simp only: x)
  then have "round_half_even (?x / Q) = 2 ^ 53"
    by (simp only: round_half_even_tie) simp
  then have "of_int (round_half_even (?x / Q)) * Q = 2 ^ 53 * Q" by simp
  then have "nearest_double ?x = 2 powi 1024"
    by (simp only: nearest_double_normal [OF pos normal] q top)
  moreover have "(0::rat) < 2 powi 1024" by (simp add: zero_less_power_int)
  ultimately have "2 powi 1024 \<le> \<bar>nearest_double ?x\<bar>" by simp
  then show ?thesis by (simp only: float_of_int_def Let_def if_True)
qed

lemma nearest_double_even:
  assumes "2 ^ 52 \<le> n" and "n < 2 ^ 53"
  shows "nearest_double (of_int (2 * n)) = of_int (2 * n)"
    and "nearest_double (of_int (2 * n + 1)) = of_int (if even n then 2 * n else 2 * n + 2)"
proof -
  have "2 ^ 53 \<le> 2 * n" "2 * n + 1 < 2 ^ 54" using assms by simp_all
  then have bounds: "(of_int (2 ^ 53) :: rat) \<le> of_int (2 * n)"
      "(of_int (2 * n + 1) :: rat) < of_int (2 ^ 54)"
    by (simp_all only: of_int_le_iff of_int_less_iff)
  have p53: "(2::rat) powi 53 = of_int (2 ^ 53)" and p54: "(2::rat) powi 54 = of_int (2 ^ 54)"
    by simp_all
  have low: "(2::rat) powi (- 1022) \<le> 2 powi 53" by (intro power_int_increasing) simp_all
  have zero: "(0::rat) < 2 powi 53" by (simp add: zero_less_power_int)
  have q: "(2::rat) powi (53 - 52) = 2" by simp
  {
    fix m :: int
    assume m: "m = 2 * n \<or> m = 2 * n + 1"
    let ?x = "of_int m :: rat"
    have lo: "2 powi 53 \<le> ?x" using bounds(1) m by (auto simp only: p53 of_int_le_iff)
    have hi: "?x < 2 powi 54" using bounds(2) m by (auto simp only: p54 of_int_less_iff)
    have pos: "0 < ?x" using lo zero by linarith
    have normal: "2 powi (- 1022) \<le> ?x" using lo low by linarith
    have e: "exponent ?x = 53" by (rule exponent_unique [OF pos lo hi]) simp
    have "nearest_double ?x = of_int (round_half_even (?x / 2)) * 2"
      by (simp only: nearest_double_normal [OF pos normal] e q)
  }
  note nd = this
  have "(of_int (2 * n) / 2 :: rat) = of_int n" by simp
  then have "round_half_even (of_int (2 * n) / 2) = n" by (simp only: round_half_even_of_int)
  with nd [of "2 * n"] show "nearest_double (of_int (2 * n)) = of_int (2 * n)" by simp
  have "(of_int (2 * n + 1) / 2 :: rat) = of_int n + 1 / 2" by (simp add: add_divide_distrib)
  then have "round_half_even (of_int (2 * n + 1) / 2) = (if even n then n else n + 1)"
    by (simp only: round_half_even_tie)
  with nd [of "2 * n + 1"]
  show "nearest_double (of_int (2 * n + 1)) = of_int (if even n then 2 * n else 2 * n + 2)"
    by simp
qed

lemma nearest_double_tie: "nearest_double 9007199254740993 = 9007199254740992"
  using nearest_double_even(2) [of "2 ^ 52"] by simp

lemma nearest_double_two_53: "nearest_double 9007199254740992 = 9007199254740992"
  using nearest_double_even(1) [of "2 ^ 52"] by simp

text \<open>
  Claim C1 as stated, for every page size and every count, fails on the code. With
  \<open>per_page = 2^1024 - 2^970\<close> the conversion \<open>float(per_page)\<close> raises \<open>OverflowError\<close>,
  also on an empty collection. With \<open>2^53 + 1\<close> rows and one row per page the code counts
  \<open>2^53\<close> pages where \<open>ceil(count / per_page)\<close> is \<open>2^53 + 1\<close>: the request for the last
  page, \<open>2^53 + 1\<close>, is answered with the row at index \<open>2^53 - 1\<close> and not with the row at
  index \<open>2^53\<close>.
\<close>

theorem get_list_float_limits:
  "get_list None (\<lambda>f v x. True) ([] :: nat list) 1 (2 ^ 1024 - 2 ^ 970) ([] :: (nat \<times> nat) list)
     = Inl OverflowError
   \<and> get_list None (\<lambda>f v x. True) [0 ..< 2 ^ 53 + 1] (2 ^ 53 + 1) 1 ([] :: (nat \<times> nat) list)
       = Inr [2 ^ 53 - 1]
   \<and> page_count [0 ..< 2 ^ 53 + 1] 1 = 2 ^ 53 + 1
   \<and> map ((!) [0 ..< 2 ^ 53 + 1]) [2 ^ 53 ..< 2 ^ 53 + 1] = [2 ^ 53]"
proof (intro conjI)
  show "get_list None (\<lambda>f v x. True) ([] :: nat list) 1 (2 ^ 1024 - 2 ^ 970)
          ([] :: (nat \<times> nat) list) = Inl OverflowError"
    by (simp only: get_list_def Let_def float_of_int_overflow sum.case)
  have one: "float_of_int 1 = Inr 1"
    using float_of_int_exact [of 1] by simp
  have "\<not> (2::rat) powi 1024 \<le> 2 powi 53"
    using power_int_strict_increasing [of 53 1024 "2::rat"] by simp
  then have small: "\<not> (2::rat) powi 1024 \<le> \<bar>9007199254740992\<bar>" by simp
  have count: "float_of_int 9007199254740993 = Inr 9007199254740992"
    unfolding float_of_int_def Let_def
    by (simp only: of_int_numeral nearest_double_tie small if_False)
  have slice: "py_slice [0 ..< 9007199254740993 :: nat] 9007199254740991 9007199254740992
                 = [9007199254740991]"
    by (simp add: py_slice_nonneg)
  have "get_list None (\<lambda>f v x. True) [0 ..< 9007199254740993 :: nat] 9007199254740993 1
          ([] :: (nat \<times> nat) list) = Inr [9007199254740991]"
    by (simp add: get_list_def Let_def one count nearest_double_two_53 slice)
  then show "get_list None (\<lambda>f v x. True) [0 ..< 2 ^ 53 + 1] (2 ^ 53 + 1) 1 ([] :: (nat \<times> nat) list)
          = Inr [2 ^ 53 - 1]"
    by simp
  show "page_count [0 ..< 2 ^ 53 + 1] 1 = 2 ^ 53 + 1"
    by (simp add: page_count_div)
  show "map ((!) [0 ..< 2 ^ 53 + 1]) [2 ^ 53 ..< 2 ^ 53 + 1] = [(2::nat) ^ 53]"
    by simp
qed

subsection \<open>Authentication\<close>

lemma renew_authentication_Some:
  "renew_authentication utcnow opts (Some P) h =
     (Inr (), set_cookie (cookie_name opts)
                (encode (jwt opts)
                   (P(''iat'' \<mapsto> PTime (utcnow (clock h)),
                      ''exp'' \<mapsto> PTime (utcnow (Suc (clock h)) + expiration opts))))
                (h\<lparr>clock := Suc (Suc (clock h))\<rparr>))"
  by (simp add: renew_authentication_def read_clock_def Let_def)

text \<open>
  Claim C6. When \<open>try_to_decode\<close> reports the presented cookie as not authenticated (it is
  absent, or the codec rejects it), the decorated method sets the status 401 and raises
  \<open>Finish\<close>; the outcome is the same whatever the guarded method is, so the guarded body
  is not run and leaves no trace in the handler.
\<close>

theorem authenticated_rejects_invalid:
  assumes "\<not> fst (is_authenticated opts h)"
  shows "authenticated utcnow opts method h =
           (Inl Finish, h\<lparr>status := 401, reason := ''Unauthorized''\<rparr>)"
proof -
  obtain payload where "is_authenticated opts h = (False, payload)"
    using assms by (cases "is_authenticated opts h") auto
  then show ?thesis
    by (simp add: authenticated_def set_unauthorized_def set_status_def)
qed

theorem authenticated_rejects_invalid_witness:
  "\<not> fst (is_authenticated example_options (example_request Map.empty [])) \<and>
   authenticated (\<lambda>n. 1000) example_options (signout_post example_options)
       (example_request Map.empty []) =
     (Inl Finish, (example_request Map.empty [])\<lparr>status := 401, reason := ''Unauthorized''\<rparr>)"
  using authenticated_rejects_invalid [of example_options "example_request Map.empty []"
      "\<lambda>n. 1000" "signout_post example_options"]
  by (simp add: is_authenticated_def example_options_def configure_def example_jwt_def
      example_request_def)

text \<open>
  Claim C5, as amended. With a valid token of claims \<open>P\<close>, the renewal encodes a payload
  that has \<open>iat\<close> set to a reading of the clock, \<open>exp\<close> set to the next reading plus
  the configured expiration, and every other claim of \<open>P\<close> as it was; the cookie is set
  to that token and only then the guarded method runs. The response carries the renewed
  token whenever the guarded method leaves that cookie alone.
\<close>

theorem authenticated_renews:
  assumes "is_authenticated opts h = (True, Some P)"
  shows "\<exists>P'. P' ''iat'' = Some (PTime (utcnow (clock h))) \<and>
              P' ''exp'' = Some (PTime (utcnow (Suc (clock h)) + expiration opts)) \<and>
              (\<forall>k. k \<noteq> ''iat'' \<and> k \<noteq> ''exp'' \<longrightarrow> P' k = P k) \<and>
              authenticated utcnow opts method h =
                method (set_cookie (cookie_name opts) (encode (jwt opts) P')
                          (h\<lparr>clock := Suc (Suc (clock h))\<rparr>)) \<and>
              ((\<forall>s. new_cookie (snd (method s)) (cookie_name opts) = new_cookie s (cookie_name opts))
                 \<longrightarrow> new_cookie (snd (authenticated utcnow opts method h)) (cookie_name opts)
                       = Some (SetCookie (encode (jwt opts) P')))"
proof -
  let ?P = "P(''iat'' \<mapsto> PTime (utcnow (clock h)),
              ''exp'' \<mapsto> PTime (utcnow (Suc (clock h)) + expiration opts))"
  have run: "authenticated utcnow opts method h =
      method (set_cookie (cookie_name opts) (encode (jwt opts) ?P)
                (h\<lparr>clock := Suc (Suc (clock h))\<rparr>))"
    using assms by (simp add: authenticated_def renew_authentication_Some)
  have "(\<forall>s. new_cookie (snd (method s)) (cookie_name opts) = new_cookie s (cookie_name opts))
          \<longrightarrow> new_cookie (snd (authenticated utcnow opts method h)) (cookie_name opts)
                = Some (SetCookie (encode (jwt opts) ?P))"
    unfolding run by (simp add: set_cookie_def)
  with run show ?thesis
    by (intro exI [of _ ?P]) simp
qed

text \<open>
  Claim C5 as stated fails for the guarded sign-out: its body clears the cookie the
  renewal has just set, so the response does not carry the renewed token.
\<close>

theorem signout_clears_renewed_cookie:
  "is_authenticated example_options (example_request [''AUTH_TOKEN'' \<mapsto> ''valid-token''] [])
     = (True, Some [''sub'' \<mapsto> PStr ''u1'']) \<and>
   new_cookie (snd (authenticated (\<lambda>n. 1000) example_options (signout_post example_options)
       (example_request [''AUTH_TOKEN'' \<mapsto> ''valid-token''] []))) ''AUTH_TOKEN''
     = Some ClearedCookie \<and>
   new_cookie (snd (authenticated (\<lambda>n. 1000) example_options (signout_post example_options)
       (example_request [''AUTH_TOKEN'' \<mapsto> ''valid-token''] []))) ''AUTH_TOKEN''
     \<noteq> Some (SetCookie (encode (jwt example_options)
                [''sub'' \<mapsto> PStr ''u1'', ''iat'' \<mapsto> PTime 1000, ''exp'' \<mapsto> PTime 2200]))"
  by (simp add: is_authenticated_def example_options_def configure_def example_jwt_def
      example_request_def authenticated_def renew_authentication_Some signout_post_def
      set_cookie_def clear_cookie_def write_chunk_def)


lemma new_cookie_write_chunk: "new_cookie (snd (write_chunk c h)) = new_cookie h"
  by (simp add: write_chunk_def)

theorem authenticated_renews_witness:
  "is_authenticated example_options (example_request [''AUTH_TOKEN'' \<mapsto> ''valid-token''] [])
     = (True, Some [''sub'' \<mapsto> PStr ''u1'']) \<and>
   new_cookie (snd (authenticated (\<lambda>n. 1000) example_options
       (write_chunk (Text ''OK''))
       (example_request [''AUTH_TOKEN'' \<mapsto> ''valid-token''] []))) ''AUTH_TOKEN''
     = Some (SetCookie ''renewed-token'')"
proof -
  let ?h = "example_request [''AUTH_TOKEN'' \<mapsto> ''valid-token''] [] :: unit handler"
  have name: "cookie_name example_options = ''AUTH_TOKEN''"
    and enc: "\<And>p. encode (jwt example_options) p = ''renewed-token''"
    by (simp_all add: example_options_def configure_def example_jwt_def)
  have valid: "is_authenticated example_options ?h = (True, Some [''sub'' \<mapsto> PStr ''u1''])"
    by (simp add: is_authenticated_def example_options_def configure_def example_jwt_def
        example_request_def)
  have keep: "\<forall>s :: unit handler.
      new_cookie (snd (write_chunk (Text ''OK'') s)) (cookie_name example_options)
        = new_cookie s (cookie_name example_options)"
    by (simp add: new_cookie_write_chunk)
  from authenticated_renews [OF valid, of "\<lambda>n. 1000" "write_chunk (Text ''OK'')"] keep
  obtain P' where
    "new_cookie (snd (authenticated (\<lambda>n. 1000) example_options (write_chunk (Text ''OK'')) ?h))
       (cookie_name example_options) = Some (SetCookie (encode (jwt example_options) P'))"
    by blast
  with valid show ?thesis by (simp add: name enc)
qed

lemma new_cookie_set_unauthorized:
  "new_cookie (snd (set_unauthorized h :: (error + unit) \<times> 'db handler)) = new_cookie h"
  by (simp add: set_unauthorized_def set_status_def)

lemma signin_post_cookie:
  assumes changed: "new_cookie (snd (signin_post utcnow opts loads providers h)) \<noteq> new_cookie h"
  shows "\<exists>post_data provider user_data.
      loads (request_body h) = Inr post_data \<and>
      providers_get providers (dict_get post_data ''provider'') = Inr (Some provider) \<and>
      provider (dict_get post_data ''access_token'') = Inr user_data \<and>
      truthy user_data"
proof (cases "loads (request_body h)")
  case (Inl e)
  with changed show ?thesis by (simp add: signin_post_def)
next
  case loaded: (Inr post_data)
  show ?thesis
  proof (cases "providers_get providers (dict_get post_data ''provider'')")
    case (Inl e)
    with changed loaded show ?thesis by (simp add: signin_post_def Let_def)
  next
    case found: (Inr p)
    show ?thesis
    proof (cases p)
      case None
      with changed loaded found show ?thesis
        by (simp add: signin_post_def Let_def new_cookie_set_unauthorized)
    next
      case (Some provider)
      show ?thesis
      proof (cases "provider (dict_get post_data ''access_token'')")
        case (Inl e)
        with changed loaded found Some show ?thesis by (simp add: signin_post_def Let_def)
      next
        case (Inr user_data)
        have "truthy user_data"
        proof (rule ccontr)
          assume "\<not> truthy user_data"
          with changed loaded found Some Inr show False
            by (simp add: signin_post_def Let_def new_cookie_set_unauthorized send_def)
        qed
        with loaded found Some Inr show ?thesis by simp
      qed
    qed
  qed
qed

text \<open>
  Claim C7. When the provider named in the request returns \<open>None\<close> for the access token,
  sign-in sends the unauthorized signal, sets the status 401 and raises \<open>Finish\<close>, and
  touches nothing else: no cookie is set. Whenever sign-in does change the cookies, the
  provider has returned a (truthy) user record.
\<close>

theorem signin_absent_user_unauthorized:
  "(loads (request_body h) = Inr post_data \<and>
    providers_get providers (dict_get post_data ''provider'') = Inr (Some provider) \<and>
    provider (dict_get post_data ''access_token'') = Inr PNone
    \<longrightarrow> signin_post utcnow opts loads providers h =
          (Inl Finish,
           h\<lparr>signals := signals h @ [UnauthorizedUser (dict_get post_data ''provider'')],
             status := 401, reason := ''Unauthorized''\<rparr>))
   \<and> (new_cookie (snd (signin_post utcnow opts loads providers h)) \<noteq> new_cookie h
    \<longrightarrow> (\<exists>post_data provider user_data.
          loads (request_body h) = Inr post_data \<and>
          providers_get providers (dict_get post_data ''provider'') = Inr (Some provider) \<and>
          provider (dict_get post_data ''access_token'') = Inr user_data \<and>
          truthy user_data))"
proof (intro conjI impI)
  assume a: "loads (request_body h) = Inr post_data \<and>
    providers_get providers (dict_get post_data ''provider'') = Inr (Some provider) \<and>
    provider (dict_get post_data ''access_token'') = Inr PNone"
  then show "signin_post utcnow opts loads providers h =
          (Inl Finish,
           h\<lparr>signals := signals h @ [UnauthorizedUser (dict_get post_data ''provider'')],
             status := 401, reason := ''Unauthorized''\<rparr>)"
    by (simp add: signin_post_def Let_def set_unauthorized_def set_status_def send_def)
next
  assume "new_cookie (snd (signin_post utcnow opts loads providers h)) \<noteq> new_cookie h"
  then show "\<exists>post_data provider user_data.
          loads (request_body h) = Inr post_data \<and>
          providers_get providers (dict_get post_data ''provider'') = Inr (Some provider) \<and>
          provider (dict_get post_data ''access_token'') = Inr user_data \<and>
          truthy user_data"
    by (rule signin_post_cookie)
qed

theorem signin_absent_user_unauthorized_witness:
  "signin_post (\<lambda>n. 1000) example_options example_loads [''google'' \<mapsto> example_provider]
       (example_request Map.empty ''bad'') =
     (Inl Finish,
      (example_request Map.empty ''bad'')
        \<lparr>signals := [UnauthorizedUser (PStr ''google'')],
         status := 401, reason := ''Unauthorized''\<rparr>)
   \<and> new_cookie (snd (signin_post (\<lambda>n. 1000) example_options example_loads
         [''google'' \<mapsto> example_provider] (example_request Map.empty ''good''))) ''AUTH_TOKEN''
       = Some (SetCookie ''renewed-token'')
   \<and> example_provider (PStr ''good'') = Inr (PDict [(''id'', PStr ''u1''), (''name'', PStr ''Ann'')])"
  using signin_absent_user_unauthorized [of example_loads "example_request Map.empty ''bad''"
      "[(''access_token'', PStr ''bad''), (''provider'', PStr ''google'')]"
      "[''google'' \<mapsto> example_provider]" example_provider "\<lambda>n. 1000" example_options]
    signin_absent_user_unauthorized [of example_loads "example_request Map.empty ''good''"
      "[(''access_token'', PStr ''good''), (''provider'', PStr ''google'')]"
      "[''google'' \<mapsto> example_provider]" example_provider "\<lambda>n. 1000" example_options]
  by (simp add: example_loads_def example_provider_def example_request_def dict_get_def
      signin_post_def Let_def read_clock_def send_def set_cookie_def write_chunk_def
      example_options_def configure_def example_jwt_def)

subsection \<open>The REST handler\<close>

lemma split_on_no_sep: "c \<notin> set s \<Longrightarrow> split_on c s = [s]"
  by (induction s) auto

lemma split_on_two_has_sep: "split_on c s = [a, b] \<Longrightarrow> c \<in> set s"
  using split_on_no_sep [of c s] by auto

lemma get_parent_model_single:
  assumes "filter (\<lambda>arg. arg \<noteq> []) args = [segment]"
    and "split_on CHR ''/'' (lstrip CHR ''/'' segment) = [collection, pk]"
    and "adapter_get_instance ad (PStr pk) d = Inr obj"
  shows "get_parent_model ad args d = Inr (obj, collection, Some (class_of d obj), Some pk)"
  using assms split_on_two_has_sep [OF assms(2)]
  by (simp add: get_parent_model_def Let_def)





lemma example_get_instance_1: "get_instance example_user (PStr ''1'') example_db = Inr (PRef 0)"
  by (simp add: get_instance_def example_user_def example_db_def get_id_field_name_def)

lemma example_get_instance_2: "get_instance example_user (PStr ''2'') example_db = Inr PNone"
  by (simp add: get_instance_def example_user_def example_db_def get_id_field_name_def)

lemma example_class_of: "cls (heap example_db 0) = ''User''"
  by (simp add: example_db_def)

lemma example_split_1: "split_on CHR ''/'' (lstrip CHR ''/'' ''/user/1'') = [''user'', ''1'']"
  by (simp add: lstrip_def)

lemma example_split_2: "split_on CHR ''/'' (lstrip CHR ''/'' ''/user/2'') = [''user'', ''2'']"
  by (simp add: lstrip_def)


lemma staff_split_1: "split_on CHR ''/'' ''staff/2'' = [''staff'', ''2'']"
  by simp





lemma rest_delete_found:
  assumes "get_parent_model ad args (db h) = Inr (obj, field_name, model, Some pk)"
    and "\<not> finished h"
    and "adapter_delete_instance ad (PStr pk) (db h) = (Inr (PRef r), d)"
  shows "rest_delete ad args h =
           (Inr (), h\<lparr>db := d,
                      signals := signals h @ [PostDeleteInstance (adapter_model ad) (PRef r)],
                      written := written h @ [Text ''OK'']\<rparr>)"
  using assms by (simp add: rest_delete_def send_def write_chunk_def)

lemma rest_delete_missing:
  assumes "get_parent_model ad args (db h) = Inr (obj, field_name, model, Some pk)"
    and "\<not> finished h"
    and "adapter_delete_instance ad (PStr pk) (db h) = (Inr PNone, d)"
  shows "rest_delete ad args h =
           (Inr (), h\<lparr>db := d, written := written h @ [Text ''FAIL'']\<rparr>)"
  using assms by (simp add: rest_delete_def write_chunk_def)

lemma delete_instance_cases:
  assumes "get_id_field_name model = Inr field"
  shows "delete_instance model pk d =
     (let queryset = (case get_instance_queryset model of
                        None \<Rightarrow> table d (class_name model)
                      | Some hook \<Rightarrow> hook d (table d (class_name model)) pk)
      in case find (\<lambda>r. attrs (heap d r) field = Some pk) queryset of
           None \<Rightarrow> (Inr PNone, d)
         | Some r \<Rightarrow> (Inr (PRef r), save_instance (db_delete r d)))"
  using assms
  by (simp add: delete_instance_def get_instance_def Let_def split: option.splits)

text \<open>
  Claim C8. When the path resolves with a terminal id, \<open>delete\<close> sends exactly one
  deleted signal and writes \<open>OK\<close> if \<open>delete_instance\<close> returns an instance, and
  writes \<open>FAIL\<close>, sends no signal and raises nothing if it returns \<open>None\<close>. The
  provider's \<open>delete_instance\<close> returns the first instance with that id, removed from
  its table, or \<open>None\<close> with the session untouched when there is none: no error.
\<close>

theorem delete_found_or_missing:
  "(get_parent_model ad args (db h) = Inr (obj, field_name, model, Some pk) \<and> \<not> finished h \<longrightarrow>
      (\<forall>r d. adapter_delete_instance ad (PStr pk) (db h) = (Inr (PRef r), d) \<longrightarrow>
         rest_delete ad args h =
           (Inr (), h\<lparr>db := d,
                      signals := signals h @ [PostDeleteInstance (adapter_model ad) (PRef r)],
                      written := written h @ [Text ''OK'']\<rparr>)) \<and>
      (\<forall>d. adapter_delete_instance ad (PStr pk) (db h) = (Inr PNone, d) \<longrightarrow>
         rest_delete ad args h =
           (Inr (), h\<lparr>db := d, written := written h @ [Text ''FAIL'']\<rparr>)))
   \<and> (get_id_field_name m = Inr field \<longrightarrow>
        delete_instance m key s =
          (let queryset = (case get_instance_queryset m of
                             None \<Rightarrow> table s (class_name m)
                           | Some hook \<Rightarrow> hook s (table s (class_name m)) key)
           in case find (\<lambda>r. attrs (heap s r) field = Some key) queryset of
                None \<Rightarrow> (Inr PNone, s)
              | Some r \<Rightarrow> (Inr (PRef r), save_instance (db_delete r s))))"
  using rest_delete_found [of ad args h obj field_name model pk]
    rest_delete_missing [of ad args h obj field_name model pk]
    delete_instance_cases [of m field key s]
  by blast

lemma example_id_field: "get_id_field_name example_user = Inr ''id''"
  by (simp add: get_id_field_name_def example_user_def)

lemma example_delete_1:
  "delete_instance example_user (PStr ''1'') example_db =
     (Inr (PRef 0), example_db\<lparr>table := (\<lambda>c. [])\<rparr>)"
proof -
  have "save_instance (db_delete 0 example_db) = example_db\<lparr>table := (\<lambda>c. [])\<rparr>"
    by (simp add: save_instance_def db_commit_def db_flush_def db_delete_def example_db_def
        fun_eq_iff)
  then show ?thesis
    by (simp add: delete_instance_def example_get_instance_1)
qed

lemma example_delete_2:
  "delete_instance example_user (PStr ''2'') example_db = (Inr PNone, example_db)"
  by (simp add: delete_instance_def example_get_instance_2)

theorem delete_found_or_missing_witness:
  "rest_delete example_adapter [''/user/1''] example_rest_request =
     (Inr (), example_rest_request
        \<lparr>db := example_db\<lparr>table := (\<lambda>c. [])\<rparr>,
         signals := [PostDeleteInstance ''User'' (PRef 0)],
         written := [Text ''OK'']\<rparr>) \<and>
   rest_delete example_adapter [''/user/2''] example_rest_request =
     (Inr (), example_rest_request\<lparr>written := [Text ''FAIL'']\<rparr>) \<and>
   get_instance example_user (PStr ''1'') (example_db\<lparr>table := (\<lambda>c. [])\<rparr>) = Inr PNone"
proof -
  have d: "db example_rest_request = example_db" and nf: "\<not> finished example_rest_request"
    and sg: "signals example_rest_request = []" and wr: "written example_rest_request = []"
    by (simp_all add: example_rest_request_def)
  have gi: "adapter_get_instance example_adapter = get_instance example_user"
    and di: "adapter_delete_instance example_adapter = delete_instance example_user"
    and am: "adapter_model example_adapter = ''User''"
    by (simp_all add: example_adapter_def)
  have p1: "get_parent_model example_adapter [''/user/1''] (db example_rest_request)
      = Inr (PRef 0, ''user'', Some ''User'', Some ''1'')"
    by (simp add: get_parent_model_single [of _ "''/user/1''" "''user''" "''1''" _ _ "PRef 0"]
        d gi example_get_instance_1 example_split_1 example_class_of)
  have p2: "get_parent_model example_adapter [''/user/2''] (db example_rest_request)
      = Inr (PNone, ''user'', Some ''NoneType'', Some ''2'')"
    by (simp add: get_parent_model_single [of _ "''/user/2''" "''user''" "''2''" _ _ PNone]
        d gi example_get_instance_2 example_split_2)
  have "rest_delete example_adapter [''/user/1''] example_rest_request =
     (Inr (), example_rest_request
        \<lparr>db := example_db\<lparr>table := (\<lambda>c. [])\<rparr>,
         signals := [PostDeleteInstance ''User'' (PRef 0)],
         written := [Text ''OK'']\<rparr>)"
    using delete_found_or_missing [of example_adapter "[''/user/1'']" example_rest_request
        "PRef 0" "''user''" "Some ''User''" "''1''" example_user "''id''"] p1 nf
    by (simp add: d di am sg wr example_delete_1)
  moreover have "rest_delete example_adapter [''/user/2''] example_rest_request =
     (Inr (), example_rest_request\<lparr>written := [Text ''FAIL'']\<rparr>)"
    using delete_found_or_missing [of example_adapter "[''/user/2'']" example_rest_request
        PNone "''user''" "Some ''NoneType''" "''2''" example_user "''id''"] p2 nf
    by (simp add: d di wr example_delete_2 example_rest_request_def)
  moreover have "get_instance example_user (PStr ''1'') (example_db\<lparr>table := (\<lambda>c. [])\<rparr>) = Inr PNone"
    by (simp add: get_instance_def example_user_def get_id_field_name_def)
  ultimately show ?thesis by simp
qed

subsection \<open>Serialization\<close>

lemma map_of_replace:
  "map_of (map (\<lambda>kv. if fst kv = k then (k, v) else kv) kvs) x =
     (if x = k \<and> map_of kvs k \<noteq> None then Some v else map_of kvs x)"
  by (induction kvs) auto

lemma map_of_dict_set: "map_of (dict_set kvs k v) = (map_of kvs)(k \<mapsto> v)"
proof (cases "k \<in> fst ` set kvs")
  case True
  then have "map_of kvs k \<noteq> None" by (simp add: map_of_eq_None_iff)
  with True show ?thesis by (auto simp: dict_set_def map_of_replace fun_eq_iff)
next
  case False
  then have "map_of kvs k = None" by (simp add: map_of_eq_None_iff)
  with False show ?thesis
    by (auto simp: dict_set_def fun_eq_iff map_add_def split: option.splits)
qed

lemma dump_instance_too_deep: "1 < depth \<Longrightarrow> dump_instance tree d v depth = Inl MaxDepthError"
  by (simp add: dump_instance.simps)

lemma dump_instance_None: "depth \<le> 1 \<Longrightarrow> dump_instance tree d PNone depth = Inr (PDict [])"
  by (simp add: dump_instance.simps)

lemma dump_nodes_lookup:
  assumes "dump_nodes tree d instance depth nodes result = Inr out"
    and "distinct (map fst nodes)"
  shows "map_of out n =
     (case map_of nodes n of
        None \<Rightarrow> map_of result n
      | Some node \<Rightarrow>
          (case dumped_field tree d instance depth n node of
             Some v \<Rightarrow> Some v
           | None \<Rightarrow> map_of result n))"
  using assms
proof (induction nodes arbitrary: result)
  case Nil
  then show ?case by simp
next
  case (Cons x nodes)
  obtain m nd where x: "x = (m, nd)" by (cases x)
  from Cons.prems(2) x have dist: "distinct (map fst nodes)" and fresh: "map_of nodes m = None"
    by (auto simp: map_of_eq_None_iff)
  show ?case
  proof (cases "n = m")
    case True
    with fresh have rest: "map_of nodes n = None" by simp
    show ?thesis
      using Cons.prems(1) Cons.IH [OF _ dist] rest True x
      by (auto simp: dumped_field_def map_of_dict_set
          split: if_splits sum.splits option.splits)
  next
    case False
    show ?thesis
      using Cons.prems(1) Cons.IH [OF _ dist] False x
      by (auto simp: map_of_dict_set split: if_splits sum.splits option.splits)
  qed
qed

lemma dump_nodes_depth1:
  "readable d r nodes \<Longrightarrow> \<exists>out. dump_nodes tree d (PRef r) 1 nodes result = Inr out"
proof (induction nodes arbitrary: result)
  case Nil
  then show ?case by simp
next
  case (Cons x nodes)
  obtain n node where x: "x = (n, node)" by (cases x)
  from Cons.prems x have rest: "readable d r nodes"
    and here: "\<not> (model_type node \<noteq> None \<and> is_multiple node) \<longrightarrow> attrs (heap d r) n \<noteq> None"
    by (simp_all add: readable_def)
  show ?case
    using Cons.IH [OF rest] here x
    by (auto simp: dump_instance_too_deep split: option.splits)
qed

lemma dump_instance_depth1:
  assumes "described tree d r"
  shows "\<exists>out. dump_instance tree d (PRef r) 1 = Inr (PDict out)"
proof -
  from assms obtain nodes where nodes: "tree (cls (heap d r)) = Some nodes"
    and rd: "readable d r nodes" and td: "to_dict (heap d r) = None"
    by (auto simp: described_def split: option.splits)
  from dump_nodes_depth1 [OF rd] obtain out
    where "dump_nodes tree d (PRef r) 1 nodes [] = Inr out" by blast
  with nodes td show ?thesis by (simp add: dump_instance.simps)
qed

lemma dump_nodes_depth0:
  "readable d r nodes \<Longrightarrow> references_described tree d r nodes \<Longrightarrow>
   \<exists>out. dump_nodes tree d (PRef r) 0 nodes result = Inr out"
proof (induction nodes arbitrary: result)
  case Nil
  then show ?case by simp
next
  case (Cons x nodes)
  obtain n node where x: "x = (n, node)" by (cases x)
  from Cons.prems x have rest: "readable d r nodes" "references_described tree d r nodes"
    and here: "\<not> (model_type node \<noteq> None \<and> is_multiple node) \<longrightarrow> attrs (heap d r) n \<noteq> None"
    and ref: "model_type node \<noteq> None \<and> \<not> is_multiple node \<longrightarrow>
                 (case attrs (heap d r) n of
                    Some PNone \<Rightarrow> True
                  | Some (PRef c) \<Rightarrow> described tree d c
                  | _ \<Rightarrow> False)"
    by (simp_all add: readable_def references_described_def)
  note IH = Cons.IH [OF rest]
  show ?case
  proof (cases "model_type node \<noteq> None \<and> \<not> is_multiple node")
    case False
    with IH here x show ?thesis by (auto split: option.splits)
  next
    case True
    with ref consider "attrs (heap d r) n = Some PNone"
      | c where "attrs (heap d r) n = Some (PRef c)" "described tree d c"
      by (auto split: option.splits pyval.splits)
    then show ?thesis
    proof cases
      case 1
      with IH True x show ?thesis by (simp add: dump_instance_None)
    next
      case 2
      from dump_instance_depth1 [OF 2(2)] obtain sub
        where "dump_instance tree d (PRef c) 1 = Inr (PDict sub)" by blast
      with IH True x 2 show ?thesis by simp
    qed
  qed
qed

lemma dump_instance_nodes:
  assumes "to_dict (heap d r) = None" and "tree (cls (heap d r)) = Some nodes"
    and "dump_instance tree d (PRef r) depth = Inr (PDict out)"
  shows "dump_nodes tree d (PRef r) depth nodes [] = Inr out"
  using assms by (simp add: dump_instance.simps split: if_splits sum.splits)

lemma scalar_field_dumped:
  assumes "dump_nodes tree d (PRef r) depth nodes [] = Inr out"
    and "distinct (map fst nodes)" and "(n, node) \<in> set nodes"
    and "model_type node = None" and "attrs (heap d r) n \<noteq> None"
  shows "map_of out n = attrs (heap d r) n"
  using dump_nodes_lookup [OF assms(1,2), of n] map_of_is_SomeI [OF assms(2,3)] assms(4,5)
  by (auto simp: dumped_field_def)

lemma reference_field_dumped:
  assumes "dump_nodes tree d (PRef r) depth nodes [] = Inr out"
    and "distinct (map fst nodes)" and "(n, node) \<in> set nodes"
    and "model_type node \<noteq> None" and "\<not> is_multiple node"
    and "attrs (heap d r) n = Some v" and "dump_instance tree d v (Suc depth) = Inr sub"
  shows "map_of out n = Some sub"
  using dump_nodes_lookup [OF assms(1,2), of n] map_of_is_SomeI [OF assms(2,3)] assms(4-7)
  by (auto simp: dumped_field_def)

lemma dropped_field_absent:
  assumes "dump_nodes tree d (PRef r) depth nodes [] = Inr out"
    and "distinct (map fst nodes)" and "(n, node) \<in> set nodes"
    and "model_type node \<noteq> None" and "is_multiple node \<or> 0 < depth"
  shows "map_of out n = None"
  using dump_nodes_lookup [OF assms(1,2), of n] map_of_is_SomeI [OF assms(2,3)] assms(4,5)
  by (auto simp: dumped_field_def dump_instance_too_deep split: sum.splits)

text \<open>
  Claim C9, as amended. For an instance without \<open>to_dict\<close> whose class the tree knows
  (the field names being distinct, as the keys of a dict are), at whatever depth
  \<open>dump_instance\<close> returns a dict, a multi-valued reference field of the instance's class
  is not a key of it. This is so at the root and, the depth being any, for the nested dumps.
\<close>

theorem dump_instance_omits_lists:
  assumes "to_dict (heap d r) = None" and "tree (cls (heap d r)) = Some nodes"
    and "distinct (map fst nodes)"
    and "(n, node) \<in> set nodes" and "model_type node \<noteq> None" and "is_multiple node"
    and "dump_instance tree d (PRef r) depth = Inr (PDict out)"
  shows "map_of out n = None"
  using dropped_field_absent [OF dump_instance_nodes [OF assms(1,2,7)] assms(3,4,5)] assms(6)
  by simp

text \<open>
  Claim C10. At depth 0 or 1, \<open>dump_instance\<close> of \<open>None\<close> is the empty dict, without
  an error; so in the dump of an instance at depth 0, a single-valued reference field
  whose value is \<open>None\<close> is present with the value \<open>{}\<close>.
\<close>

theorem dump_instance_None_field:
  "(depth \<le> 1 \<longrightarrow> dump_instance tree d PNone depth = Inr (PDict [])) \<and>
   (to_dict (heap d r) = None \<and> tree (cls (heap d r)) = Some nodes \<and>
    distinct (map fst nodes) \<and> (n, node) \<in> set nodes \<and>
    model_type node \<noteq> None \<and> \<not> is_multiple node \<and>
    attrs (heap d r) n = Some PNone \<and>
    dump_instance tree d (PRef r) 0 = Inr (PDict out)
    \<longrightarrow> map_of out n = Some (PDict []))"
proof (intro conjI impI)
  assume "depth \<le> 1"
  then show "dump_instance tree d PNone depth = Inr (PDict [])" by (rule dump_instance_None)
next
  assume a: "to_dict (heap d r) = None \<and> tree (cls (heap d r)) = Some nodes \<and>
    distinct (map fst nodes) \<and> (n, node) \<in> set nodes \<and>
    model_type node \<noteq> None \<and> \<not> is_multiple node \<and>
    attrs (heap d r) n = Some PNone \<and>
    dump_instance tree d (PRef r) 0 = Inr (PDict out)"
  then have run: "dump_nodes tree d (PRef r) 0 nodes [] = Inr out"
    by (intro dump_instance_nodes) simp_all
  have unset: "dump_instance tree d PNone (Suc 0) = Inr (PDict [])"
    by (simp add: dump_instance_None)
  from a have dist: "distinct (map fst nodes)" and mem: "(n, node) \<in> set nodes"
    and ref: "model_type node \<noteq> None" and single: "\<not> is_multiple node"
    and attr: "attrs (heap d r) n = Some PNone"
    by simp_all
  show "map_of out n = Some (PDict [])"
    by (rule reference_field_dumped [OF run dist mem ref single attr unset])
qed

text \<open>
  Claim C2, as amended. For an instance described by the tree, whose single-valued
  references are \<open>None\<close> or described instances (so: no \<open>to_dict\<close> on the way), however
  deep the graph goes on, \<open>dump_instance\<close> at depth 0 returns a dict and raises nothing.
  In it every scalar field of the instance has its value, and every single-valued reference
  is present: \<open>{}\<close> for \<open>None\<close>, and for a referenced instance the dict of that
  instance's scalar fields, in which none of its own reference fields appears (the third
  hop is dropped, and nothing else).
\<close>

theorem dump_instance_deep_graph:
  assumes custom: "to_dict (heap d r) = None"
    and nodes: "tree (cls (heap d r)) = Some nodes"
    and dist: "distinct (map fst nodes)"
    and rd: "readable d r nodes"
    and refs: "references_described tree d r nodes"
  shows "\<exists>out. dump_instance tree d (PRef r) 0 = Inr (PDict out) \<and>
     (\<forall>(n, node) \<in> set nodes.
        (model_type node = None \<longrightarrow> map_of out n = attrs (heap d r) n) \<and>
        (model_type node \<noteq> None \<and> \<not> is_multiple node \<longrightarrow>
           (attrs (heap d r) n = Some PNone \<longrightarrow> map_of out n = Some (PDict [])) \<and>
           (\<forall>c nodes'. attrs (heap d r) n = Some (PRef c) \<and> tree (cls (heap d c)) = Some nodes'
              \<longrightarrow> (\<exists>sub. map_of out n = Some (PDict sub) \<and>
                     (\<forall>(m, nd) \<in> set nodes'.
                        (model_type nd = None \<longrightarrow> map_of sub m = attrs (heap d c) m) \<and>
                        (model_type nd \<noteq> None \<longrightarrow> map_of sub m = None))))))"
proof -
  from dump_nodes_depth0 [OF rd refs] obtain out
    where out: "dump_nodes tree d (PRef r) 0 nodes [] = Inr out" by blast
  with custom nodes have top: "dump_instance tree d (PRef r) 0 = Inr (PDict out)"
    by (simp add: dump_instance.simps)
  have "(model_type node = None \<longrightarrow> map_of out n = attrs (heap d r) n) \<and>
        (model_type node \<noteq> None \<and> \<not> is_multiple node \<longrightarrow>
           (attrs (heap d r) n = Some PNone \<longrightarrow> map_of out n = Some (PDict [])) \<and>
           (\<forall>c nodes'. attrs (heap d r) n = Some (PRef c) \<and> tree (cls (heap d c)) = Some nodes'
              \<longrightarrow> (\<exists>sub. map_of out n = Some (PDict sub) \<and>
                     (\<forall>(m, nd) \<in> set nodes'.
                        (model_type nd = None \<longrightarrow> map_of sub m = attrs (heap d c) m) \<and>
                        (model_type nd \<noteq> None \<longrightarrow> map_of sub m = None)))))"
    if mem: "(n, node) \<in> set nodes" for n node
  proof (intro conjI impI allI)
    assume "model_type node = None"
    moreover from rd mem this have "attrs (heap d r) n \<noteq> None"
      by (auto simp: readable_def list_all_iff)
    ultimately show "map_of out n = attrs (heap d r) n"
      using scalar_field_dumped [OF out dist mem] by simp
  next
    assume "model_type node \<noteq> None \<and> \<not> is_multiple node" "attrs (heap d r) n = Some PNone"
    then show "map_of out n = Some (PDict [])"
      using reference_field_dumped [OF out dist mem, of PNone "PDict []"]
      by (simp add: dump_instance_None)
  next
    fix c nodes'
    assume single: "model_type node \<noteq> None \<and> \<not> is_multiple node"
      and child: "attrs (heap d r) n = Some (PRef c) \<and> tree (cls (heap d c)) = Some nodes'"
    from refs mem single child have dc: "described tree d c"
      by (auto simp: references_described_def list_all_iff)
    with child have td: "to_dict (heap d c) = None" and dist': "distinct (map fst nodes')"
      and rd': "readable d c nodes'"
      by (simp_all add: described_def)
    from dump_instance_depth1 [OF dc] obtain sub
      where sub: "dump_instance tree d (PRef c) 1 = Inr (PDict sub)" by blast
    from td child sub have subn: "dump_nodes tree d (PRef c) 1 nodes' [] = Inr sub"
      by (intro dump_instance_nodes) simp_all
    have field: "map_of out n = Some (PDict sub)"
      using reference_field_dumped [OF out dist mem, of "PRef c" "PDict sub"] single child sub
      by simp
    have "(model_type nd = None \<longrightarrow> map_of sub m = attrs (heap d c) m) \<and>
          (model_type nd \<noteq> None \<longrightarrow> map_of sub m = None)"
      if mem': "(m, nd) \<in> set nodes'" for m nd
    proof (intro conjI impI)
      assume "model_type nd = None"
      moreover from rd' mem' this have "attrs (heap d c) m \<noteq> None"
        by (auto simp: readable_def list_all_iff)
      ultimately show "map_of sub m = attrs (heap d c) m"
        using scalar_field_dumped [OF subn dist' mem'] by simp
    next
      assume "model_type nd \<noteq> None"
      then show "map_of sub m = None"
        using dropped_field_absent [OF subn dist' mem'] by simp
    qed
    with field show "\<exists>sub. map_of out n = Some (PDict sub) \<and>
        (\<forall>(m, nd) \<in> set nodes'.
           (model_type nd = None \<longrightarrow> map_of sub m = attrs (heap d c) m) \<and>
           (model_type nd \<noteq> None \<longrightarrow> map_of sub m = None))"
      by blast
  qed
  with top show ?thesis by blast
qed

lemma chain_tree_Item: "chain_tree ''Item'' = Some item_nodes"
  by (simp add: chain_tree_def)

lemma chain_db_obj:
  "cls (heap chain_db r) = ''Item''"
  "to_dict (heap chain_db r) = None"
  "attrs (heap chain_db r) ''name'' = Some (PStr (if r = 0 then ''a'' else if r = 1 then ''b'' else ''c''))"
  "attrs (heap chain_db r) ''next'' = Some (if r < 2 then PRef (Suc r) else PNone)"
  "attrs (heap chain_db r) ''tags'' = Some (PList [])"
  by (simp_all add: chain_db_def)

lemma chain_readable: "readable chain_db r item_nodes"
  by (simp add: readable_def item_nodes_def chain_db_obj)

lemma chain_described: "described chain_tree chain_db r"
  by (simp add: described_def chain_db_obj chain_tree_Item chain_readable)
    (simp add: item_nodes_def)

lemma chain_references: "references_described chain_tree chain_db 0 item_nodes"
  by (simp add: references_described_def item_nodes_def chain_db_obj chain_described)

lemma chain_dump_0:
  "dump_instance chain_tree chain_db (PRef 0) 0 =
     Inr (PDict [(''name'', PStr ''a''), (''next'', PDict [(''name'', PStr ''b'')])])"
  by (simp add: dump_instance.simps chain_tree_def item_nodes_def chain_db_def dict_set_def)

lemma chain_dump_2:
  "dump_instance chain_tree chain_db (PRef 2) 0 =
     Inr (PDict [(''name'', PStr ''c''), (''next'', PDict [])])"
  by (simp add: dump_instance.simps chain_tree_def item_nodes_def chain_db_def dict_set_def)

lemma custom_db_obj:
  "cls (heap custom_db 0) = ''Item''"
  "attrs (heap custom_db 0) ''name'' = Some (PStr ''a'')"
  by (simp_all add: custom_db_def chain_db_obj)

lemma custom_dump_0:
  "dump_instance chain_tree custom_db (PRef 0) 0 = Inr (PDict [(''tags'', PList [PStr ''t1''])])"
  by (simp add: dump_instance.simps custom_db_def)

theorem dump_instance_deep_graph_witness:
  "to_dict (heap chain_db 0) = None \<and>
   chain_tree (cls (heap chain_db 0)) = Some item_nodes \<and>
   distinct (map fst item_nodes) \<and>
   readable chain_db 0 item_nodes \<and>
   references_described chain_tree chain_db 0 item_nodes \<and>
   attrs (heap chain_db 0) ''next'' = Some (PRef 1) \<and>
   attrs (heap chain_db 1) ''next'' = Some (PRef 2) \<and>
   dump_instance chain_tree chain_db (PRef 0) 0 =
     Inr (PDict [(''name'', PStr ''a''), (''next'', PDict [(''name'', PStr ''b'')])])"
  using dump_instance_deep_graph [of chain_db 0 chain_tree item_nodes]
  by (simp add: chain_db_obj chain_tree_Item chain_readable chain_references chain_dump_0)
    (simp add: item_nodes_def)

text \<open>
  Claim C2 as stated fails for an instance with a \<open>to_dict\<close>: its result is the output,
  and the scalar field \<open>name\<close> of the instance is not in it.
\<close>

theorem custom_to_dict_hides_fields:
  "(''name'', \<lparr>model_type = None, is_multiple = False\<rparr>) \<in> set item_nodes \<and>
   chain_tree (cls (heap custom_db 0)) = Some item_nodes \<and>
   attrs (heap custom_db 0) ''name'' = Some (PStr ''a'') \<and>
   dump_instance chain_tree custom_db (PRef 0) 0 = Inr (PDict [(''tags'', PList [PStr ''t1''])]) \<and>
   map_of [(''tags'', PList [PStr ''t1''])] ''name'' = None"
  by (simp add: custom_dump_0 custom_db_obj chain_tree_Item) (simp add: item_nodes_def)

theorem dump_instance_omits_lists_witness:
  "to_dict (heap chain_db 0) = None \<and>
   chain_tree (cls (heap chain_db 0)) = Some item_nodes \<and>
   distinct (map fst item_nodes) \<and>
   (''tags'', \<lparr>model_type = Some ''Tag'', is_multiple = True\<rparr>) \<in> set item_nodes \<and>
   dump_instance chain_tree chain_db (PRef 0) 0 =
     Inr (PDict [(''name'', PStr ''a''), (''next'', PDict [(''name'', PStr ''b'')])]) \<and>
   map_of [(''name'', PStr ''a''), (''next'', PDict [(''name'', PStr ''b'')])] ''tags'' = None"
  using dump_instance_omits_lists [of chain_db 0 chain_tree item_nodes "''tags''"
      "\<lparr>model_type = Some ''Tag'', is_multiple = True\<rparr>" 0
      "[(''name'', PStr ''a''), (''next'', PDict [(''name'', PStr ''b'')])]"]
  by (simp add: chain_db_obj chain_tree_Item chain_dump_0) (simp add: item_nodes_def)

text \<open>
  Claim C9 as stated fails for an instance with a \<open>to_dict\<close>: its result is the output,
  with the multi-valued reference field \<open>tags\<close> in it.
\<close>

theorem custom_to_dict_shows_list:
  "(''tags'', \<lparr>model_type = Some ''Tag'', is_multiple = True\<rparr>) \<in> set item_nodes \<and>
   chain_tree (cls (heap custom_db 0)) = Some item_nodes \<and>
   dump_instance chain_tree custom_db (PRef 0) 0 = Inr (PDict [(''tags'', PList [PStr ''t1''])]) \<and>
   map_of [(''tags'', PList [PStr ''t1''])] ''tags'' = Some (PList [PStr ''t1''])"
  by (simp add: custom_dump_0 custom_db_obj chain_tree_Item) (simp add: item_nodes_def)

theorem dump_instance_None_field_witness:
  "dump_instance chain_tree chain_db PNone 1 = Inr (PDict []) \<and>
   attrs (heap chain_db 2) ''next'' = Some PNone \<and>
   dump_instance chain_tree chain_db (PRef 2) 0 =
     Inr (PDict [(''name'', PStr ''c''), (''next'', PDict [])]) \<and>
   map_of [(''name'', PStr ''c''), (''next'', PDict [])] ''next'' = Some (PDict [])"
  using dump_instance_None_field [of 1 chain_tree chain_db 2 item_nodes "''next''"
      "\<lparr>model_type = Some ''Item'', is_multiple = False\<rparr>"
      "[(''name'', PStr ''c''), (''next'', PDict [])]"]
  by (simp add: chain_db_obj chain_dump_2)

subsection \<open>Creating and updating instances\<close>

text \<open>
  Whatever the request, a result of \<open>update_instance\<close> is a tuple of three components with
  \<open>None\<close> first. The unpacking into two names that \<open>ModelRestHandler.put\<close> applies to the
  result of its \<open>update_instance\<close> refuses such a tuple; the source does not say that the two
  classes are used together.
\<close>

lemma update_instance_result:
  assumes "fst (update_instance py_str self pk data request_data model instance d) = Inr v"
  shows "\<exists>i u. v = PTuple [PNone, i, PDict u]"
  using assms
  by (auto simp: update_instance_def Let_def split: if_splits sum.splits prod.splits)

lemma unpack_pair_triple: "unpack_pair (PTuple [a, b, c]) = Inl ValueError"
  by simp

lemma rest_put_fails:
  "fst (rest_put ad (\<lambda>pk data. update_instance py_str self pk data data None PNone)
          get_request_data args h) \<noteq> Inr ()"
proof -
  have "unpack_pair result = Inl ValueError"
    if "update_instance py_str self pk data data None PNone d = (Inr result, d')"
    for pk data d result d'
  proof -
    from that have "fst (update_instance py_str self pk data data None PNone d) = Inr result"
      by simp
    from update_instance_result [OF this] show ?thesis
      by auto
  qed
  then show ?thesis
    by (auto simp: rest_put_def split: sum.splits prod.splits option.splits)
qed

text \<open>
  Keys without dot that name attributes and no relationship: the attributes are set to the
  data, every key gets its record of the old and the new value, and nothing else changes.
\<close>

lemma with_attrs_with_attrs: "with_attrs (with_attrs d r a) r b = with_attrs d r b"
  by (simp add: with_attrs_def)

lemma attrs_with_attrs: "attrs (heap (with_attrs d r a) r) = a"
  by (simp add: with_attrs_def)

lemma with_attrs_same: "with_attrs d r (attrs (heap d r)) = d"
  by (simp add: with_attrs_def)

lemma fold_assign_other:
  "k \<notin> fst ` set items \<Longrightarrow> fold assign items a k = a k"
  by (induction items arbitrary: a) (auto simp: assign_def)

lemma fold_assign_defined:
  "a k \<noteq> None \<Longrightarrow> fold assign items a k \<noteq> None"
  by (induction items arbitrary: a) (auto simp: assign_def)

lemma update_fields_plain_gen:
  assumes "distinct (map fst items)"
    and "\<forall>kv \<in> set items. plain_key model d r (fst kv)"
    and "\<forall>kv \<in> set items. attrs (heap d r) (fst kv) = a (fst kv)"
  shows "update_fields py_str self model (PRef r) items updated (with_attrs d r a)
           = (Inr (fold (change d r) items updated), with_attrs d r (fold assign items a))"
  using assms
proof (induction items arbitrary: a updated)
  case Nil
  then show ?case by simp
next
  case (Cons kv items)
  obtain k v where kv: "kv = (k, v)" by (cases kv)
  from Cons.prems kv have pk: "plain_key model d r k" and same: "attrs (heap d r) k = a k"
    by auto
  from pk obtain old where old: "attrs (heap d r) k = Some old"
    by (auto simp: plain_key_def)
  have rest: "update_fields py_str self model (PRef r) items (change d r (k, v) updated)
                (with_attrs d r (assign (k, v) a))
              = (Inr (fold (change d r) items (change d r (k, v) updated)),
                 with_attrs d r (fold assign items (assign (k, v) a)))"
  proof (rule Cons.IH)
    show "distinct (map fst items)" using Cons.prems by simp
    show "\<forall>kv \<in> set items. plain_key model d r (fst kv)" using Cons.prems by simp
    show "\<forall>kv \<in> set items. attrs (heap d r) (fst kv) = assign (k, v) a (fst kv)"
      using Cons.prems kv by (auto simp: assign_def)
  qed
  have step: "py_setattr (with_attrs d r a) (PRef r) k v = Inr (with_attrs d r (assign (k, v) a))"
    by (simp add: with_attrs_def assign_def)
  have get: "py_getattr (with_attrs d r a) (PRef r) k = Inr old"
    using old same by (simp add: with_attrs_def)
  have ch: "dict_set updated k (PDict [(''from'', old), (''to'', v)]) = change d r (k, v) updated"
    using old by (simp add: change_def)
  show ?case
    using pk rest
    by (simp add: kv plain_key_def Let_def get step ch del: py_getattr.simps py_setattr.simps)
qed

lemma update_fields_plain:
  assumes "distinct (map fst items)"
    and "\<forall>kv \<in> set items. plain_key model d r (fst kv)"
  shows "update_fields py_str self model (PRef r) items updated d
           = (Inr (fold (change d r) items updated),
              with_attrs d r (fold assign items (attrs (heap d r))))"
  using update_fields_plain_gen [OF assms(1) assms(2), of "attrs (heap d r)" py_str self updated]
  by (simp add: with_attrs_same)

lemma map_of_fold_change:
  assumes "distinct (map fst items)"
  shows "map_of (fold (change d r) items updated) k
           = (case map_of items k of
                None \<Rightarrow> map_of updated k
              | Some v \<Rightarrow> Some (PDict [(''from'', the (attrs (heap d r) k)), (''to'', v)]))"
  using assms
proof (induction items arbitrary: updated)
  case Nil
  then show ?case by simp
next
  case (Cons kv items)
  obtain k' v' where kv: "kv = (k', v')" by (cases kv)
  have notin: "map_of items k' = None"
    using Cons.prems kv by (simp add: map_of_eq_None_iff)
  have ih: "map_of (fold (change d r) items (change d r (k', v') updated)) k
              = (case map_of items k of
                   None \<Rightarrow> map_of (change d r (k', v') updated) k
                 | Some v \<Rightarrow> Some (PDict [(''from'', the (attrs (heap d r) k)), (''to'', v)]))"
    using Cons.prems by (intro Cons.IH) simp
  have first: "map_of (change d r (k', v') updated)
                 = (map_of updated)(k' \<mapsto> PDict [(''from'', the (attrs (heap d r) k')), (''to'', v')])"
    by (simp add: change_def map_of_dict_set)
  show ?case
    using notin by (auto simp: kv ih first split: option.splits)
qed

lemma fold_assign_map_of:
  assumes "distinct (map fst items)"
  shows "fold assign items a k = (case map_of items k of None \<Rightarrow> a k | Some v \<Rightarrow> Some v)"
  using assms
proof (induction items arbitrary: a)
  case Nil
  then show ?case by simp
next
  case (Cons kv items)
  obtain k' v' where kv: "kv = (k', v')" by (cases kv)
  have notin: "map_of items k' = None"
    using Cons.prems kv by (simp add: map_of_eq_None_iff)
  have ih: "fold assign items (a(k' \<mapsto> v')) k
              = (case map_of items k of None \<Rightarrow> (a(k' \<mapsto> v')) k | Some v \<Rightarrow> Some v)"
    using Cons.prems by (intro Cons.IH) simp
  have first: "assign (k', v') a = a(k' \<mapsto> v')"
    by (simp add: assign_def)
  have head: "fold assign (kv # items) a = fold assign items (a(k' \<mapsto> v'))"
    by (simp only: kv fold_simps first)
  show ?case
    unfolding head ih using notin by (auto simp: kv split: option.splits)
qed


lemma update_instance_plain:
  assumes found: "get_instance (provider_model self) pk d = Inr (PRef r)"
    and keys: "distinct (map fst request_data)"
    and plain: "\<forall>kv \<in> set request_data. plain_key (provider_model self) d r (fst kv)"
  shows "\<exists>updated d'.
           update_instance py_str self pk data request_data None PNone d
             = (Inr (PTuple [PNone, PRef r, PDict updated]), save_instance d')
           \<and> (\<forall>k. map_of updated k
                  = (case map_of request_data k of
                       None \<Rightarrow> None
                     | Some v \<Rightarrow>
                         Some (PDict [(''from'', the (attrs (heap d r) k)), (''to'', v)])))
           \<and> (\<forall>k. attrs (heap d' r) k
                  = (case map_of request_data k of
                       None \<Rightarrow> attrs (heap d r) k
                     | Some v \<Rightarrow> Some v))
           \<and> (\<forall>x. x \<noteq> r \<longrightarrow> heap d' x = heap d x)
           \<and> table d' = table d"
proof (intro exI conjI)
  show "update_instance py_str self pk data request_data None PNone d
          = (Inr (PTuple [PNone, PRef r, PDict (fold (change d r) request_data [])]),
             save_instance (with_attrs d r (fold assign request_data (attrs (heap d r)))))"
    by (simp add: update_instance_def found update_fields_plain [OF keys plain])
  show "\<forall>k. map_of (fold (change d r) request_data []) k
              = (case map_of request_data k of
                   None \<Rightarrow> None
                 | Some v \<Rightarrow> Some (PDict [(''from'', the (attrs (heap d r) k)), (''to'', v)]))"
    by (simp add: map_of_fold_change [OF keys] split: option.splits)
  show "\<forall>k. attrs (heap (with_attrs d r (fold assign request_data (attrs (heap d r)))) r) k
              = (case map_of request_data k of
                   None \<Rightarrow> attrs (heap d r) k
                 | Some v \<Rightarrow> Some v)"
    by (simp add: attrs_with_attrs fold_assign_map_of [OF keys])
  show "\<forall>x. x \<noteq> r \<longrightarrow> heap (with_attrs d r (fold assign request_data (attrs (heap d r)))) x = heap d x"
    by (simp add: with_attrs_def)
  show "table (with_attrs d r (fold assign request_data (attrs (heap d r)))) = table d"
    by (simp add: with_attrs_def)
qed

text \<open>
  Claim C3: \<open>update_instance\<close> applies the data with the same dotted-key and \<open>[]\<close> semantics as
  creation and returns the pair of the instance and the changed fields. The code misses the
  \<open>[]\<close> semantics: on the data \<open>{'team[]': '2'}\<close> for the stored instance of id \<open>'1'\<close> the
  update raises \<open>AttributeError\<close>, where creation with the same data appends the instance of
  id \<open>'2'\<close> to \<open>team\<close>. On the data \<open>{'name': 'Eve'}\<close> the result is a tuple of three
  components, \<open>None\<close> first, which an unpacking into two names refuses.
\<close>

theorem update_instance_brackets_and_result:
  "fst (update_instance example_str staff_provider (PStr ''1'')
          [(''team[]'', PStr ''2'')] [(''team[]'', PStr ''2'')] None PNone staff_db)
     = Inl AttributeError
   \<and> (case save_new_instance example_str staff_provider 2 staff [(''team[]'', PStr ''2'')]
              staff_db of
         (result, d) \<Rightarrow>
           result = Inr (PTuple [PRef 2, PNone])
           \<and> attrs (heap d 2) ''team'' = Some (PList [PRef 1]))
   \<and> fst (update_instance example_str staff_provider (PStr ''1'')
            [(''name'', PStr ''Eve'')] [(''name'', PStr ''Eve'')] None PNone staff_db)
       = Inr (PTuple [PNone, PRef 0,
                PDict [(''name'', PDict [(''from'', PStr ''Ann''), (''to'', PStr ''Eve'')])]])
   \<and> unpack_pair (PTuple [PNone, PRef 0,
                PDict [(''name'', PDict [(''from'', PStr ''Ann''), (''to'', PStr ''Eve'')])]])
       = Inl ValueError"
  by code_simp


end
